theory Spec2Isabelle
  imports Complex_Main
begin

section \<open>The grid cube of \<^verbatim>\<open>src/App.tsx\<close>\<close>

text \<open>
  The component draws a cube whose six faces carry an interior grid.  The builder computes
  in JavaScript numbers, which are IEEE 754 doubles, and stores the grid in a buffer of
  32-bit floats; the model rounds where the code rounds.  The subdivision count \<open>n\<close> is an
  integer, as the loop counter of \<^verbatim>\<open>makeFaceGrid\<close> is; integers up to \<open>2\<^sup>5\<^sup>3\<close> are doubles,
  and the counter is exact up to there.
\<close>

subsection \<open>Numbers\<close>

text \<open>
  A number of a binary format with \<open>p\<close> significant bits is a real; rounding is to the
  nearest number of the format, ties to the even significand.  \<open>expo x\<close> is the binary
  exponent of a positive \<open>x\<close>: the \<open>k\<close> with \<open>2\<^sup>k \<le> x < 2\<^sup>k\<^sup>+\<^sup>1\<close>.  Below the least normal exponent
  \<open>emin\<close> the spacing of the format stays that of \<open>emin\<close> (gradual underflow).  The formats
  are unbounded above in the model: overflow to an infinity is not modelled, and the
  properties below that depend on rounding are stated for sizes up to \<open>2\<^sup>1\<^sup>0\<^sup>0\<close>, where
  nothing overflows.  The sign of a zero is not modelled either; it does not change the
  position of a vertex.
\<close>

function expo :: "real \<Rightarrow> int" where
  "expo x =
     (if x \<le> 0 then 0
      else if x < 1 then expo (2 * x) - 1
      else if 2 \<le> x then expo (x / 2) + 1
      else 0)"
  by pat_completeness auto
termination
proof (relation "measure (\<lambda>x. if x < 1 then 3 + nat \<lfloor>1 / x\<rfloor> else 2 * nat \<lfloor>x\<rfloor>)")
  show "wf (measure (\<lambda>x::real. if x < 1 then 3 + nat \<lfloor>1 / x\<rfloor> else 2 * nat \<lfloor>x\<rfloor>))"
    by simp
next
  fix x :: real
  assume a: "\<not> x \<le> 0" "x < 1"
  show "(2 * x, x) \<in> measure (\<lambda>x. if x < 1 then 3 + nat \<lfloor>1 / x\<rfloor> else 2 * nat \<lfloor>x\<rfloor>)"
  proof (cases "2 * x < 1")
    case True
    then have "2 < 1 / x" using a by (simp add: field_simps)
    then have "1 / x / 2 \<le> 1 / x - 1" by simp
    then have "\<lfloor>1 / x / 2\<rfloor> \<le> \<lfloor>1 / x - 1\<rfloor>" by (rule floor_mono)
    then have "\<lfloor>1 / x / 2\<rfloor> < \<lfloor>1 / x\<rfloor>" by simp
    moreover have "0 \<le> \<lfloor>1 / x / 2\<rfloor>" using a by simp
    ultimately show ?thesis using True a by (simp add: field_simps)
  next
    case False
    then have "\<lfloor>2 * x\<rfloor> = 1" using a by linarith
    then show ?thesis using False a by simp
  qed
next
  fix x :: real
  assume a: "\<not> x \<le> 0" "\<not> x < 1" "2 \<le> x"
  then have "x / 2 \<le> x - 1" by simp
  then have "\<lfloor>x / 2\<rfloor> \<le> \<lfloor>x - 1\<rfloor>" by (rule floor_mono)
  then have "\<lfloor>x / 2\<rfloor> < \<lfloor>x\<rfloor>" by simp
  moreover have "0 \<le> \<lfloor>x / 2\<rfloor>" using a by simp
  ultimately show "(x / 2, x) \<in> measure (\<lambda>x. if x < 1 then 3 + nat \<lfloor>1 / x\<rfloor> else 2 * nat \<lfloor>x\<rfloor>)"
    using a by simp
qed

declare expo.simps [simp del]

text \<open>Rounding to the nearest integer, ties to even.\<close>

definition rne :: "real \<Rightarrow> int" where
  "rne x =
     (let f = \<lfloor>x\<rfloor>; r = x - of_int f
      in if r < 1 / 2 then f
         else if 1 / 2 < r then f + 1
         else if even f then f else f + 1)"

definition roundTo :: "nat \<Rightarrow> int \<Rightarrow> real \<Rightarrow> real" where
  "roundTo p emin x =
     (let e = max (expo \<bar>x\<bar>) emin;
          q = 2 powi (e - int p + 1)
      in of_int (rne (x / q)) * q)"

text \<open>
  A double has 53 significant bits and least normal exponent \<open>-1022\<close>; every arithmetic
  operation of the builder returns the double nearest to the exact result, and a decimal
  literal denotes the double nearest to it.  A 32-bit float has 24 significant bits and
  least normal exponent \<open>-126\<close>; \<open>fround\<close> is the narrowing of a double to it.
\<close>

definition double :: "real \<Rightarrow> real" where
  "double x = roundTo 53 (- 1022) x"

definition fround :: "real \<Rightarrow> real" where
  "fround x = roundTo 24 (- 126) x"

subsection \<open>Vectors\<close>

text \<open>
  \<^verbatim>\<open>THREE.Vector3\<close> with the four methods the builder calls.  Each call chain of the
  source starts from a fresh vector (\<^verbatim>\<open>new THREE.Vector3()\<close>, \<^verbatim>\<open>uDir.clone()\<close>), so the
  in-place updates of the library are the values of pure functions here.  The components
  are doubles; \<^verbatim>\<open>add\<close> and \<^verbatim>\<open>multiplyScalar\<close> round each component.
\<close>

datatype vector3 = Vector3 (vx: real) (vy: real) (vz: real)

definition copy :: "vector3 \<Rightarrow> vector3 \<Rightarrow> vector3" where
  "copy this v = Vector3 (vx v) (vy v) (vz v)"

definition add :: "vector3 \<Rightarrow> vector3 \<Rightarrow> vector3" where
  "add this v =
     Vector3 (double (vx this + vx v)) (double (vy this + vy v)) (double (vz this + vz v))"

definition clone :: "vector3 \<Rightarrow> vector3" where
  "clone this = Vector3 (vx this) (vy this) (vz this)"

definition multiplyScalar :: "vector3 \<Rightarrow> real \<Rightarrow> vector3" where
  "multiplyScalar this s =
     Vector3 (double (vx this * s)) (double (vy this * s)) (double (vz this * s))"

subsection \<open>Scene objects\<close>

record lineBasicMaterial =
  lineColor :: nat
  linewidth :: real

record meshStandardMaterial =
  color :: nat
  roughness :: real
  metalness :: real
  doubleSide :: bool
  opacity :: real
  transparent :: bool

text \<open>
  A child of the group is the solid box (a mesh over \<^verbatim>\<open>BoxGeometry(w, h, d)\<close>) or a
  \<^verbatim>\<open>LineSegments\<close> object over a flat position array, read three numbers to a vertex and
  two vertices to a segment.  \<^verbatim>\<open>Float32BufferAttribute\<close> copies an array of numbers into a
  buffer of 32-bit floats.
\<close>

datatype object3d =
    Mesh real real real meshStandardMaterial
  | LineSegments "real list" lineBasicMaterial

record group =
  children :: "object3d list"
  rotation_x :: real
  rotation_y :: real

definition Float32BufferAttribute :: "real list \<Rightarrow> real list" where
  "Float32BufferAttribute array = map fround array"

fun segmentsOf :: "real list \<Rightarrow> (vector3 \<times> vector3) list" where
  "segmentsOf (a # b # c # d # e # f # rest) =
     (Vector3 a b c, Vector3 d e f) # segmentsOf rest"
| "segmentsOf _ = []"

fun segments :: "object3d \<Rightarrow> (vector3 \<times> vector3) list" where
  "segments (Mesh w h d m) = []"
| "segments (LineSegments ps m) = segmentsOf ps"

definition segmentCount :: "object3d \<Rightarrow> nat" where
  "segmentCount obj = length (segments obj)"

subsection \<open>The outer wireframe\<close>

text \<open>
  Modelled from the spec: \<^verbatim>\<open>THREE.EdgesGeometry\<close> belongs to the rendering library, which
  is not among the sources.  The spec has it extract the 12 geometric edges of the cube;
  the model lists them from the eight corners of the box: four edges along each axis.
\<close>

definition boxEdges :: "real \<Rightarrow> real \<Rightarrow> real \<Rightarrow> (vector3 \<times> vector3) list" where
  "boxEdges w h d =
     (let x = w / 2; y = h / 2; z = d / 2 in
        [(Vector3 (- x) sy sz, Vector3 x sy sz). sy \<leftarrow> [- y, y], sz \<leftarrow> [- z, z]]
      @ [(Vector3 sx (- y) sz, Vector3 sx y sz). sx \<leftarrow> [- x, x], sz \<leftarrow> [- z, z]]
      @ [(Vector3 sx sy (- z), Vector3 sx sy z). sx \<leftarrow> [- x, x], sy \<leftarrow> [- y, y]])"

fun flatten :: "(vector3 \<times> vector3) list \<Rightarrow> real list" where
  "flatten [] = []"
| "flatten ((p, q) # rest) = [vx p, vy p, vz p, vx q, vy q, vz q] @ flatten rest"

definition EdgesGeometry :: "real \<Rightarrow> real \<Rightarrow> real \<Rightarrow> real list" where
  "EdgesGeometry w h d = flatten (boxEdges w h d)"

subsection \<open>The grid of one face\<close>

text \<open>
  The loop of \<^verbatim>\<open>makeFaceGrid\<close>: for \<open>i = 1, 2, ...\<close> while \<open>i < n\<close>, push the two endpoints
  of the horizontal line and then those of the vertical line, six numbers each.  The
  offset \<^verbatim>\<open>-half + i * step\<close> is a rounded product and then a rounded sum.
\<close>

function makeFaceGrid_loop ::
  "int \<Rightarrow> real \<Rightarrow> real \<Rightarrow> vector3 \<Rightarrow> vector3 \<Rightarrow> vector3 \<Rightarrow> int \<Rightarrow> real list \<Rightarrow> real list"
where
  "makeFaceGrid_loop n half step offset uDir vDir i lines =
     (if i < n then
        let a = add (add (copy (Vector3 0 0 0) offset) (multiplyScalar (clone uDir) (- half)))
                    (multiplyScalar (clone vDir) (double (- half + double (of_int i * step))));
            b = add (add (copy (Vector3 0 0 0) offset) (multiplyScalar (clone uDir) half))
                    (multiplyScalar (clone vDir) (double (- half + double (of_int i * step))));
            lines1 = lines @ [vx a, vy a, vz a, vx b, vy b, vz b];
            c = add (add (copy (Vector3 0 0 0) offset)
                         (multiplyScalar (clone uDir) (double (- half + double (of_int i * step)))))
                    (multiplyScalar (clone vDir) (- half));
            d = add (add (copy (Vector3 0 0 0) offset)
                         (multiplyScalar (clone uDir) (double (- half + double (of_int i * step)))))
                    (multiplyScalar (clone vDir) half);
            lines2 = lines1 @ [vx c, vy c, vz c, vx d, vy d, vz d]
        in makeFaceGrid_loop n half step offset uDir vDir (i + 1) lines2
      else lines)"
  by pat_completeness auto
termination
  by (relation "measure (\<lambda>(n, half, step, offset, uDir, vDir, i, lines). nat (n - i))") auto

declare makeFaceGrid_loop.simps [simp del]

definition edgeMat :: lineBasicMaterial where
  "edgeMat = \<lparr>lineColor = 0x111827, linewidth = 1\<rparr>"

definition makeFaceGrid ::
  "int \<Rightarrow> real \<Rightarrow> real \<Rightarrow> vector3 \<Rightarrow> vector3 \<Rightarrow> vector3 \<Rightarrow> object3d" where
  "makeFaceGrid n half step offset uDir vDir =
     LineSegments
       (Float32BufferAttribute (makeFaceGrid_loop n half step offset uDir vDir 1 [])) edgeMat"

subsection \<open>The builder\<close>

definition faceMat :: meshStandardMaterial where
  "faceMat = \<lparr>color = 0xffffff, roughness = 6 / 10, metalness = 0, doubleSide = True,
              opacity = 1, transparent = False\<rparr>"

text \<open>
  \<^verbatim>\<open>buildCubeGrid(n, size, THREE)\<close>; the parameter \<^verbatim>\<open>size\<close> is written \<open>sz\<close>.  The children
  are listed in the order of the \<^verbatim>\<open>group.add\<close> calls.  The material of the box is
  \<^verbatim>\<open>faceMat\<close> after the two assignments to \<^verbatim>\<open>box.material\<close>; the literals that configure
  the materials and the rotation are the decimal fractions of the source.  The step \<^verbatim>\<open>size / n\<close> is read
  only inside the loop, which does not run unless \<open>n \<ge> 2\<close>.
\<close>

definition buildCubeGrid :: "int \<Rightarrow> real \<Rightarrow> group" where
  "buildCubeGrid n sz =
     (let box = Mesh sz sz sz (faceMat\<lparr>opacity := 95 / 100, transparent := True\<rparr>);
          edges = EdgesGeometry sz sz sz;
          half = double (sz / 2);
          step = double (sz / of_int n)
      in \<lparr>children =
            [box,
             LineSegments edges edgeMat,
             makeFaceGrid n half step
               (Vector3 0 0 (double (half + double (1 / 1000)))) (Vector3 1 0 0) (Vector3 0 1 0),
             makeFaceGrid n half step
               (Vector3 0 0 (double (- half - double (1 / 1000)))) (Vector3 (- 1) 0 0) (Vector3 0 1 0),
             makeFaceGrid n half step
               (Vector3 (double (half + double (1 / 1000))) 0 0) (Vector3 0 0 (- 1)) (Vector3 0 1 0),
             makeFaceGrid n half step
               (Vector3 (double (- half - double (1 / 1000))) 0 0) (Vector3 0 0 1) (Vector3 0 1 0),
             makeFaceGrid n half step
               (Vector3 0 (double (half + double (1 / 1000))) 0) (Vector3 1 0 0) (Vector3 0 0 (- 1)),
             makeFaceGrid n half step
               (Vector3 0 (double (- half - double (1 / 1000))) 0) (Vector3 1 0 0) (Vector3 0 0 1)],
          rotation_x = 15 / 100,
          rotation_y = - (4 / 10)\<rparr>)"

subsection \<open>The loop in closed form\<close>

text \<open>
  The interior offset \<open>t = -half + i * step\<close> of iteration \<open>i\<close>, as the loop rounds it, and
  the offsets of the iterations \<open>i = 1, ..., n - 1\<close> in order; the two segments an iteration
  pushes at its offset; and the segments of a whole face before the narrowing to 32-bit
  floats.  The lemmas below show that the loop computes exactly these.
\<close>

definition gridOffset :: "real \<Rightarrow> real \<Rightarrow> int \<Rightarrow> real" where
  "gridOffset half step i = double (- half + double (of_int i * step))"

definition gridOffsets :: "int \<Rightarrow> real \<Rightarrow> real \<Rightarrow> real list" where
  "gridOffsets n half step = map (gridOffset half step) [1..n - 1]"

definition hline :: "real \<Rightarrow> vector3 \<Rightarrow> vector3 \<Rightarrow> vector3 \<Rightarrow> real \<Rightarrow> vector3 \<times> vector3" where
  "hline half offset uDir vDir t =
     (add (add offset (multiplyScalar uDir (- half))) (multiplyScalar vDir t),
      add (add offset (multiplyScalar uDir half)) (multiplyScalar vDir t))"

definition vline :: "real \<Rightarrow> vector3 \<Rightarrow> vector3 \<Rightarrow> vector3 \<Rightarrow> real \<Rightarrow> vector3 \<times> vector3" where
  "vline half offset uDir vDir t =
     (add (add offset (multiplyScalar uDir t)) (multiplyScalar vDir (- half)),
      add (add offset (multiplyScalar uDir t)) (multiplyScalar vDir half))"

definition faceLines ::
  "int \<Rightarrow> real \<Rightarrow> real \<Rightarrow> vector3 \<Rightarrow> vector3 \<Rightarrow> vector3 \<Rightarrow> (vector3 \<times> vector3) list" where
  "faceLines n half step offset uDir vDir =
     concat (map (\<lambda>t. [hline half offset uDir vDir t, vline half offset uDir vDir t])
                 (gridOffsets n half step))"

text \<open>The narrowing of a vertex and of a segment to 32-bit floats.\<close>

definition froundVector :: "vector3 \<Rightarrow> vector3" where
  "froundVector v = Vector3 (fround (vx v)) (fround (vy v)) (fround (vz v))"

definition froundSegment :: "vector3 \<times> vector3 \<Rightarrow> vector3 \<times> vector3" where
  "froundSegment sg = (froundVector (fst sg), froundVector (snd sg))"

subsection \<open>The stored grid\<close>

text \<open>
  What the position buffers of \<^verbatim>\<open>buildCubeGrid(n, size)\<close> hold, as 32-bit floats: the half
  edge, the distance of the grid planes from the centre (the half edge plus the literal
  \<^verbatim>\<open>0.001\<close>, added in doubles), and the interior offset of iteration \<open>i\<close>.
\<close>

definition storedHalf :: "real \<Rightarrow> real" where
  "storedHalf sz = fround (double (sz / 2))"

definition storedNormal :: "real \<Rightarrow> real" where
  "storedNormal sz = fround (double (double (sz / 2) + double (1 / 1000)))"

definition storedOffset :: "int \<Rightarrow> real \<Rightarrow> int \<Rightarrow> real" where
  "storedOffset n sz i = fround (gridOffset (double (sz / 2)) (double (sz / of_int n)) i)"

text \<open>
  The point of face \<open>k\<close> with coordinates \<open>a\<close> along \<^verbatim>\<open>uDir\<close> and \<open>b\<close> along \<^verbatim>\<open>vDir\<close>, for a grid
  plane at distance \<open>z\<close> from the centre.  The faces are numbered as the children of the
  group: 2 is +Z, 3 is -Z, 4 is +X, 5 is -X, 6 is +Y and 7 is -Y, with the offset and the
  two directions that \<^verbatim>\<open>buildCubeGrid\<close> passes for each.  The horizontal and the vertical
  segment of a face at an offset \<open>t\<close>, for a half edge \<open>h\<close>.
\<close>

definition facePoint :: "nat \<Rightarrow> real \<Rightarrow> real \<Rightarrow> real \<Rightarrow> vector3" where
  "facePoint k z a b =
     (if k = 2 then Vector3 a b z
      else if k = 3 then Vector3 (- a) b (- z)
      else if k = 4 then Vector3 z b (- a)
      else if k = 5 then Vector3 (- z) b a
      else if k = 6 then Vector3 a z (- b)
      else Vector3 a (- z) b)"

definition faceSegmentsAt :: "nat \<Rightarrow> real \<Rightarrow> real \<Rightarrow> real \<Rightarrow> (vector3 \<times> vector3) list" where
  "faceSegmentsAt k z h t =
     [(facePoint k z (- h) t, facePoint k z h t),
      (facePoint k z t (- h), facePoint k z t h)]"

text \<open>
  The endpoints of the segments of an object; the reflection of a point through a centre,
  and of a segment.
\<close>

definition endpoints :: "object3d \<Rightarrow> vector3 list" where
  "endpoints obj = concat (map (\<lambda>(p, q). [p, q]) (segments obj))"

definition reflect :: "vector3 \<Rightarrow> vector3 \<Rightarrow> vector3" where
  "reflect c p = Vector3 (2 * vx c - vx p) (2 * vy c - vy p) (2 * vz c - vz p)"

definition reflectSegment :: "vector3 \<Rightarrow> vector3 \<times> vector3 \<Rightarrow> vector3 \<times> vector3" where
  "reflectSegment c sg = (reflect c (fst sg), reflect c (snd sg))"

section \<open>The viewer session\<close>

text \<open>
  The effect of \<^verbatim>\<open>CubeChessPrototype\<close> runs on one JavaScript thread.  Its state is the
  variables the closures of the effect share, together with the part of the host they
  touch: the mount reference, the window (viewport height, resize listener, animation
  frame request) and the console.  Every handler runs to completion; an exception leaves
  the updates made before it in place, so a handler returns the error, if any, and the
  state.  The arithmetic of the session (the height heuristic and the aspect ratio) is
  kept in exact reals: the properties of the session below only equate the code's own
  expressions.
\<close>

datatype error = TypeError | NotFoundError | ImportError

datatype domNode = RendererDomElement | HostNode nat

record mountRegion =
  clientWidth :: real
  childNodes :: "domNode list"

record webGLRenderer =
  antialias :: bool
  pixelRatio :: real
  rendererWidth :: real
  rendererHeight :: real
  rendererDisposed :: nat

record perspectiveCamera =
  fov :: real
  aspect :: real
  near :: real
  far :: real
  position :: vector3
  projectionAspect :: real

record orbitControls =
  enableDamping :: bool
  dampingFactor :: real
  minDistance :: real
  maxDistance :: real
  controlsDisposed :: nat

datatype sceneObject =
    AmbientLight nat real
  | DirectionalLight nat real vector3
  | CubeGroup group
  | GroundPlane real real meshStandardMaterial real real

record sceneGraph =
  background :: nat
  objects :: "sceneObject list"

text \<open>
  The ground plane is \<open>GroundPlane width height material r y\<close>, where the rotation about
  the x axis is \<open>r\<close> times \<open>\<pi>\<close> (the source sets \<^verbatim>\<open>-Math.PI / 2\<close>) and \<open>y\<close> is the height of
  its position.
\<close>

text \<open>
  The method calls on the window, the mounted element, the console, the renderer, the
  scene, the camera and the controls, in the order they are made.
\<close>

datatype call =
    RendererSetPixelRatio real
  | AppendChild
  | SceneAdd sceneObject
  | AddEventListener
  | ControlsUpdate
  | RendererRender
  | RequestAnimationFrame nat
  | RendererSetSize real real
  | UpdateProjectionMatrix
  | RemoveEventListener
  | CancelAnimationFrame "nat option"
  | ControlsDispose
  | RendererDispose
  | RemoveChild
  | ConsoleError error

record viewer =
  mountRef_current :: "mountRegion option"
  innerHeight :: real
  devicePixelRatio :: real
  resizeListener :: bool
  pendingFrame :: "nat option"
  nextFrameId :: nat
  calls :: "call list"
  initPending :: bool
  renderer :: "webGLRenderer option"
  scene :: "sceneGraph option"
  camera :: "perspectiveCamera option"
  controls :: "orbitControls option"
  animId :: "nat option"
  cubeGroup :: "group option"
  cleanupPromise :: bool

text \<open>
  The body of the effect: the closure variables are declared and undefined, \<^verbatim>\<open>init()\<close> is
  started and waits for its two imports.  The host supplies the mount reference, the
  viewport height and the pixel ratio; no listener and no frame request of this effect
  exist yet.
\<close>

definition useEffect :: "mountRegion option \<Rightarrow> real \<Rightarrow> real \<Rightarrow> viewer" where
  "useEffect mount vh dpr =
     \<lparr>mountRef_current = mount, innerHeight = vh, devicePixelRatio = dpr,
      resizeListener = False, pendingFrame = None, nextFrameId = 1, calls = [],
      initPending = True,
      renderer = None, scene = None, camera = None, controls = None, animId = None,
      cubeGroup = None, cleanupPromise = False\<rparr>"

text \<open>
  \<^verbatim>\<open>animate\<close>: update the controls, render, and request the next frame, whose id is stored
  in \<^verbatim>\<open>animId\<close>.
\<close>

definition animate :: "viewer \<Rightarrow> error option \<times> viewer" where
  "animate s =
     (case controls s of
        None \<Rightarrow> (Some TypeError, s)
      | Some c \<Rightarrow>
          let s1 = s\<lparr>calls := calls s @ [ControlsUpdate]\<rparr> in
          (case renderer s1 of
             None \<Rightarrow> (Some TypeError, s1)
           | Some r \<Rightarrow>
               let s2 = s1\<lparr>calls := calls s1 @ [RendererRender]\<rparr>;
                   k = nextFrameId s2
               in (None, s2\<lparr>pendingFrame := Some k, nextFrameId := k + 1,
                              animId := Some k,
                              calls := calls s2 @ [RequestAnimationFrame k]\<rparr>)))"

text \<open>
  \<^verbatim>\<open>init\<close> after its two awaits (lines 23 to 92).  Reading \<^verbatim>\<open>clientWidth\<close> of a null mount
  reference raises before anything is created.  The constructors of the library are taken
  to succeed, so this is the only statement of \<^verbatim>\<open>init\<close> that can raise.  \<^verbatim>\<open>appendChild\<close>
  puts the surface last among the children of the mounted element.
\<close>

definition planeMat :: meshStandardMaterial where
  "planeMat = \<lparr>color = 0xffffff, roughness = 1, metalness = 0, doubleSide = False,
               opacity = 4 / 10, transparent = True\<rparr>"

definition init :: "viewer \<Rightarrow> error option \<times> viewer" where
  "init s =
     (case mountRef_current s of
        None \<Rightarrow> (Some TypeError, s)
      | Some m \<Rightarrow>
          let width = clientWidth m;
              height = max 400 (innerHeight s * (45 / 100));
              r = \<lparr>antialias = True, pixelRatio = devicePixelRatio s,
                   rendererWidth = width, rendererHeight = height, rendererDisposed = 0\<rparr>;
              m1 = m\<lparr>childNodes := remove1 RendererDomElement (childNodes m) @ [RendererDomElement]\<rparr>;
              cam = \<lparr>fov = 45, aspect = width / height, near = 1 / 10, far = 1000,
                     position = Vector3 4 4 6, projectionAspect = width / height\<rparr>;
              ctl = \<lparr>enableDamping = True, dampingFactor = 8 / 100, minDistance = 3,
                     maxDistance = 20, controlsDisposed = 0\<rparr>;
              g = buildCubeGrid 3 (double (24 / 10));
              sc = \<lparr>background = 0xf7f7fb,
                    objects = [AmbientLight 0xffffff (8 / 10),
                               DirectionalLight 0xffffff (6 / 10) (Vector3 5 10 7),
                               CubeGroup g,
                               GroundPlane 20 20 planeMat (- (1 / 2)) (- (16 / 10))]\<rparr>;
              s1 = s\<lparr>mountRef_current := Some m1,
                     renderer := Some r, scene := Some sc, camera := Some cam,
                     controls := Some ctl, cubeGroup := Some g,
                     resizeListener := True,
                     calls := calls s @ [RendererSetPixelRatio (devicePixelRatio s),
                                         RendererSetSize width height, AppendChild]
                                      @ map SceneAdd (objects sc) @ [AddEventListener]\<rparr>
          in animate s1)"

text \<open>\<^verbatim>\<open>onResize\<close> (lines 67 to 73).\<close>

definition onResize :: "viewer \<Rightarrow> error option \<times> viewer" where
  "onResize s =
     (case mountRef_current s of
        None \<Rightarrow> (Some TypeError, s)
      | Some m \<Rightarrow>
          let w = clientWidth m;
              h = max 400 (innerHeight s * (45 / 100))
          in (case renderer s of
                None \<Rightarrow> (Some TypeError, s)
              | Some r \<Rightarrow>
                  let s1 = s\<lparr>renderer := Some (r\<lparr>rendererWidth := w, rendererHeight := h\<rparr>),
                             calls := calls s @ [RendererSetSize w h]\<rparr>
                  in (case camera s1 of
                        None \<Rightarrow> (Some TypeError, s1)
                      | Some c \<Rightarrow>
                          (None,
                           s1\<lparr>camera := Some (c\<lparr>aspect := w / h, projectionAspect := w / h\<rparr>),
                              calls := calls s1 @ [UpdateProjectionMatrix]\<rparr>))))"

text \<open>
  The cleanup closure that \<^verbatim>\<open>init\<close> returns (lines 85 to 91).  Removing a listener that is
  not registered and cancelling a request that is not pending do nothing.
  \<^verbatim>\<open>removeChild\<close> raises \<^verbatim>\<open>NotFoundError\<close> when the node is not a child, and calling it
  on a null mount reference is a \<^verbatim>\<open>TypeError\<close>.
\<close>

definition cleanup :: "viewer \<Rightarrow> error option \<times> viewer" where
  "cleanup s =
     (let s1 = s\<lparr>resizeListener := False, calls := calls s @ [RemoveEventListener]\<rparr>;
          s2 = s1\<lparr>pendingFrame :=
                     (if pendingFrame s1 = animId s1 then None else pendingFrame s1),
                   calls := calls s1 @ [CancelAnimationFrame (animId s1)]\<rparr>
      in (case controls s2 of
            None \<Rightarrow> (Some TypeError, s2)
          | Some c \<Rightarrow>
              let s3 = s2\<lparr>controls := Some (c\<lparr>controlsDisposed := controlsDisposed c + 1\<rparr>),
                         calls := calls s2 @ [ControlsDispose]\<rparr>
              in (case renderer s3 of
                    None \<Rightarrow> (Some TypeError, s3)
                  | Some r \<Rightarrow>
                      let s4 = s3\<lparr>renderer :=
                                    Some (r\<lparr>rendererDisposed := rendererDisposed r + 1\<rparr>),
                                  calls := calls s3 @ [RendererDispose]\<rparr>
                      in (case mountRef_current s4 of
                            None \<Rightarrow> (Some TypeError, s4)
                          | Some m \<Rightarrow>
                              let s5 = s4\<lparr>calls := calls s4 @ [RemoveChild]\<rparr> in
                              if RendererDomElement \<in> set (childNodes m)
                              then (None,
                                    s5\<lparr>mountRef_current :=
                                         Some (m\<lparr>childNodes :=
                                                   remove1 RendererDomElement (childNodes m)\<rparr>)\<rparr>)
                              else (Some NotFoundError, s5)))))"

text \<open>The function the effect returns (lines 97 to 99).\<close>

definition teardown :: "viewer \<Rightarrow> error option \<times> viewer" where
  "teardown s = (if cleanupPromise s then cleanup s else (None, s))"

subsection \<open>Events\<close>

text \<open>
  What the host can do to a session: settle the imports, invoke the teardown, fire a
  resize event, run an animation frame, or change the mount reference or the viewport
  height.  The continuation of \<^verbatim>\<open>init\<close> and the \<^verbatim>\<open>then\<close> callback that stores the cleanup
  run in consecutive microtasks, so they form one step; a rejection goes to
  \<^verbatim>\<open>console.error\<close>.  An error that escapes a handler is dropped by \<open>handleEvent\<close>.
\<close>

datatype event =
    ImportsResolved
  | ImportsRejected
  | Teardown
  | WindowResize
  | AnimationFrame
  | HostSetsRef "mountRegion option"
  | HostSetsInnerHeight real

definition importsResolved :: "viewer \<Rightarrow> viewer" where
  "importsResolved s =
     (if initPending s then
        (case init s of
           (None, s1) \<Rightarrow> s1\<lparr>initPending := False, cleanupPromise := True\<rparr>
         | (Some e, s1) \<Rightarrow> s1\<lparr>initPending := False, calls := calls s1 @ [ConsoleError e]\<rparr>)
      else s)"

definition importsRejected :: "viewer \<Rightarrow> viewer" where
  "importsRejected s =
     (if initPending s
      then s\<lparr>initPending := False, calls := calls s @ [ConsoleError ImportError]\<rparr>
      else s)"

definition resizeEvent :: "viewer \<Rightarrow> error option \<times> viewer" where
  "resizeEvent s = (if resizeListener s then onResize s else (None, s))"

definition animationFrame :: "viewer \<Rightarrow> error option \<times> viewer" where
  "animationFrame s =
     (case pendingFrame s of
        None \<Rightarrow> (None, s)
      | Some k \<Rightarrow> animate (s\<lparr>pendingFrame := None\<rparr>))"

fun handleEvent :: "event \<Rightarrow> viewer \<Rightarrow> viewer" where
  "handleEvent ImportsResolved s = importsResolved s"
| "handleEvent ImportsRejected s = importsRejected s"
| "handleEvent Teardown s = snd (teardown s)"
| "handleEvent WindowResize s = snd (resizeEvent s)"
| "handleEvent AnimationFrame s = snd (animationFrame s)"
| "handleEvent (HostSetsRef m) s = s\<lparr>mountRef_current := m\<rparr>"
| "handleEvent (HostSetsInnerHeight vh) s = s\<lparr>innerHeight := vh\<rparr>"

definition run :: "event list \<Rightarrow> viewer \<Rightarrow> viewer" where
  "run evs s = fold handleEvent evs s"

text \<open>
  A running session: \<^verbatim>\<open>init\<close> has completed, so the cleanup is stored, the objects exist,
  the resize listener is registered and the frame requested last is pending.
\<close>

definition running :: "viewer \<Rightarrow> bool" where
  "running s \<longleftrightarrow>
     \<not> initPending s \<and> cleanupPromise s \<and> resizeListener s \<and> renderer s \<noteq> None \<and>
     camera s \<noteq> None \<and> controls s \<noteq> None \<and> cubeGroup s \<noteq> None \<and> animId s \<noteq> None \<and>
     pendingFrame s = animId s"

text \<open>A session in which nothing has been set up.\<close>

definition idle :: "viewer \<Rightarrow> bool" where
  "idle s \<longleftrightarrow>
     \<not> cleanupPromise s \<and> \<not> resizeListener s \<and> pendingFrame s = None \<and>
     cubeGroup s = None \<and> scene s = None \<and> renderer s = None"

text \<open>The rendering surface is a child of the element the mount reference holds.\<close>

definition surfaceAttached :: "viewer \<Rightarrow> bool" where
  "surfaceAttached s =
     (case mountRef_current s of
        None \<Rightarrow> False
      | Some m \<Rightarrow> RendererDomElement \<in> set (childNodes m))"

text \<open>The calls other than reports to the console.\<close>

fun isConsoleError :: "call \<Rightarrow> bool" where
  "isConsoleError (ConsoleError e) = True"
| "isConsoleError _ = False"

definition libraryCalls :: "viewer \<Rightarrow> call list" where
  "libraryCalls s = filter (\<lambda>c. \<not> isConsoleError c) (calls s)"

text \<open>How often the controls and the renderer of a session have been released.\<close>

definition controlsReleases :: "viewer \<Rightarrow> nat option" where
  "controlsReleases s = map_option controlsDisposed (controls s)"

definition rendererReleases :: "viewer \<Rightarrow> nat option" where
  "rendererReleases s = map_option rendererDisposed (renderer s)"

text \<open>An event by which the host attaches an element to the mount reference.\<close>

fun attaches :: "event \<Rightarrow> bool" where
  "attaches (HostSetsRef (Some m)) = True"
| "attaches _ = False"

subsection \<open>A concrete session\<close>

text \<open>
  An empty mount region 800 pixels wide in a viewport 1000 pixels high; the session whose
  effect has just run, and the same session once the imports have resolved.
\<close>

definition exampleMount :: mountRegion where
  "exampleMount = \<lparr>clientWidth = 800, childNodes = []\<rparr>"

definition pendingSession :: viewer where
  "pendingSession = useEffect (Some exampleMount) 1000 1"

definition runningSession :: viewer where
  "runningSession = run [ImportsResolved] pendingSession"

section \<open>Properties of the rounding\<close>

subsection \<open>Powers of two\<close>

lemma pow2_add: "(2::real) powi (a + b) = 2 powi a * 2 powi b"
  by (simp add: power_int_add)

lemma pow2_Suc: "(2::real) powi (a + 1) = 2 * 2 powi a"
  by (simp add: power_int_add)

lemma pow2_pred: "(2::real) powi (a - 1) = 2 powi a / 2"
  by (simp add: power_int_diff)

lemma pow2_diff: "(2::real) powi (a - b) = 2 powi a / 2 powi b"
  by (simp add: power_int_diff)

lemma pow2_less: "a < b \<Longrightarrow> (2::real) powi a < 2 powi b"
  by (rule power_int_strict_increasing) simp_all

lemma pow2_le: "a \<le> b \<Longrightarrow> (2::real) powi a \<le> 2 powi b"
  by (rule power_int_increasing) simp_all

lemma pow2_less_D: "(2::real) powi a < 2 powi b \<Longrightarrow> a < b"
  using pow2_le [of b a] by (cases "a < b") simp_all

lemma pow2_nat: "0 \<le> k \<Longrightarrow> (2::real) powi k = of_int (2 ^ nat k)"
  by (simp add: power_int_def)

subsection \<open>The binary exponent\<close>

lemma expo_bounds:
  "0 < x \<Longrightarrow> 2 powi (expo x) \<le> x \<and> x < 2 powi (expo x + 1)"
proof (induction x rule: expo.induct)
  case (1 x)
  show ?case
  proof (cases "x < 1")
    case True
    with 1 have "2 powi (expo (2 * x)) \<le> 2 * x \<and> 2 * x < 2 powi (expo (2 * x) + 1)"
      by simp
    moreover have "expo x = expo (2 * x) - 1"
      using True "1.prems" by (subst expo.simps) simp
    ultimately show ?thesis
      by (simp add: pow2_pred pow2_Suc)
  next
    case False
    show ?thesis
    proof (cases "2 \<le> x")
      case True
      with 1 False have ih: "2 powi (expo (x / 2)) \<le> x / 2"
          "x / 2 < 2 powi (expo (x / 2) + 1)"
        by simp_all
      have e: "expo x = expo (x / 2) + 1"
        using True False "1.prems" by (subst expo.simps) simp
      have "(2::real) powi (expo x) = 2 * 2 powi (expo (x / 2))"
        unfolding e by (rule pow2_Suc)
      moreover have "(2::real) powi (expo x + 1) = 2 * 2 powi (expo (x / 2) + 1)"
        unfolding e by (rule pow2_Suc)
      ultimately show ?thesis
        using ih by simp
    next
      case nt: False
      have "expo x = 0"
        using False nt "1.prems" by (subst expo.simps) simp
      then show ?thesis
        using False nt by simp
    qed
  qed
qed

lemma expo_eq:
  assumes "0 < x" and "2 powi k \<le> x" and "x < 2 powi (k + 1)"
  shows "expo x = k"
proof -
  from expo_bounds [OF assms(1)] have b: "2 powi (expo x) \<le> x" "x < 2 powi (expo x + 1)"
    by simp_all
  from b(1) assms(3) have "2 powi (expo x) < (2::real) powi (k + 1)" by simp
  then have "expo x < k + 1" by (rule pow2_less_D)
  moreover from assms(2) b(2) have "(2::real) powi k < 2 powi (expo x + 1)" by simp
  then have "k < expo x + 1" by (rule pow2_less_D)
  ultimately show ?thesis by simp
qed

lemma expo_mono:
  assumes "0 < x" and "x \<le> y"
  shows "expo x \<le> expo y"
proof -
  have "2 powi (expo x) \<le> x" using expo_bounds [OF assms(1)] by simp
  also note assms(2)
  also have "y < 2 powi (expo y + 1)" using expo_bounds [of y] assms by simp
  finally have "expo x < expo y + 1" by (rule pow2_less_D)
  then show ?thesis by simp
qed

subsection \<open>Rounding to the nearest integer, ties to even\<close>

lemma rne_of_int [simp]: "rne (of_int k) = k"
  by (simp add: rne_def)

lemma rne_0 [simp]: "rne 0 = 0"
  using rne_of_int [of 0] by simp

lemma rne_cases:
  "rne x = \<lfloor>x\<rfloor> \<or> rne x = \<lfloor>x\<rfloor> + 1"
  by (simp add: rne_def Let_def)

lemma rne_error: "\<bar>of_int (rne x) - x\<bar> \<le> 1 / 2"
  unfolding rne_def Let_def
  by (auto simp add: abs_le_iff; linarith)

lemma rne_mono:
  assumes "x \<le> y"
  shows "rne x \<le> rne y"
proof (cases "\<lfloor>x\<rfloor> = \<lfloor>y\<rfloor>")
  case True
  then show ?thesis
    using assms unfolding rne_def Let_def by auto
next
  case False
  with assms have "\<lfloor>x\<rfloor> < \<lfloor>y\<rfloor>"
    using floor_mono [OF assms] by simp
  moreover have "rne x \<le> \<lfloor>x\<rfloor> + 1" using rne_cases [of x] by auto
  moreover have "\<lfloor>y\<rfloor> \<le> rne y" using rne_cases [of y] by auto
  ultimately show ?thesis by simp
qed

lemma rne_minus: "rne (- x) = - rne x"
proof (cases "x \<in> \<int>")
  case True
  then obtain k where "x = of_int k" by (auto elim: Ints_cases)
  then have "- x = of_int (- k)" by simp
  then show ?thesis
    using \<open>x = of_int k\<close> by (simp only: rne_of_int)
next
  case False
  have "x \<noteq> of_int \<lfloor>x\<rfloor>"
    using False Ints_of_int [of "\<lfloor>x\<rfloor>"] by metis
  moreover have "of_int \<lfloor>x\<rfloor> \<le> x"
    by (rule of_int_floor_le)
  ultimately have lt: "of_int \<lfloor>x\<rfloor> < x"
    by linarith
  have f: "\<lfloor>- x\<rfloor> = - \<lfloor>x\<rfloor> - 1"
    by (rule floor_unique) (use lt in \<open>simp_all, linarith\<close>)
  have r: "- x - of_int (- \<lfloor>x\<rfloor> - 1) = 1 - (x - of_int \<lfloor>x\<rfloor>)"
    by simp
  show ?thesis
    unfolding rne_def Let_def f r
    by auto
qed

lemma rne_nonneg: "0 \<le> x \<Longrightarrow> 0 \<le> rne x"
  using rne_mono [of 0 x] by simp


subsection \<open>Rounding to a binary format\<close>

lemma roundTo_0 [simp]: "roundTo p emin 0 = 0"
  by (simp add: roundTo_def Let_def)

lemma roundTo_minus: "roundTo p emin (- x) = - roundTo p emin x"
  by (simp add: roundTo_def Let_def rne_minus)

lemma roundTo_error:
  "\<bar>roundTo p emin x - x\<bar> \<le> 2 powi (max (expo \<bar>x\<bar>) emin - int p)"
proof -
  define e where "e = max (expo \<bar>x\<bar>) emin"
  define q :: real where "q = 2 powi (e - int p + 1)"
  have q: "0 < q" by (simp add: q_def)
  have "roundTo p emin x - x = q * (of_int (rne (x / q)) - x / q)"
    using q by (simp add: roundTo_def Let_def e_def q_def field_simps)
  then have "\<bar>roundTo p emin x - x\<bar> = q * \<bar>of_int (rne (x / q)) - x / q\<bar>"
    using q by (simp add: abs_mult)
  also have "\<dots> \<le> q * (1 / 2)"
    using q rne_error [of "x / q"] by (intro mult_left_mono) simp_all
  also have "\<dots> = 2 powi (e - int p)"
    by (simp add: q_def pow2_Suc)
  finally show ?thesis by (simp add: e_def)
qed

lemma roundTo_nonneg: "0 \<le> x \<Longrightarrow> 0 \<le> roundTo p emin x"
  by (simp add: roundTo_def Let_def rne_nonneg)

lemma rne_pow2 [simp]: "rne (2 ^ k) = 2 ^ k"
  using rne_of_int [of "2 ^ k"] by simp

lemma pow2_grid_top: "(2::real) powi (e + 1) / 2 powi (e - int p + 1) = 2 ^ p"
proof -
  have "(2::real) powi (e + 1) / 2 powi (e - int p + 1) = 2 powi ((e + 1) - (e - int p + 1))"
    by (simp only: pow2_diff)
  also have "(e + 1) - (e - int p + 1) = int p" by simp
  finally show ?thesis by simp
qed

lemma pow2_grid_bottom:
  assumes "0 < p"
  shows "(2::real) powi e / 2 powi (e - int p + 1) = 2 ^ (p - 1)"
proof -
  have "(2::real) powi e / 2 powi (e - int p + 1) = 2 powi (e - (e - int p + 1))"
    by (simp only: pow2_diff)
  also have "e - (e - int p + 1) = int (p - 1)" using assms by simp
  finally show ?thesis by (simp only: power_int_of_nat)
qed

lemma roundTo_upper:
  assumes "0 < x"
  shows "roundTo p emin x \<le> 2 powi (max (expo x) emin + 1)"
proof -
  define e where "e = max (expo x) emin"
  define q :: real where "q = 2 powi (e - int p + 1)"
  have q: "0 < q" by (simp add: q_def)
  have top: "2 powi (e + 1) / q = 2 ^ p"
    unfolding q_def by (rule pow2_grid_top)
  have "x < 2 powi (expo x + 1)" using expo_bounds [OF assms] by simp
  also have "\<dots> \<le> 2 powi (e + 1)" by (rule pow2_le) (simp add: e_def)
  finally have "x / q \<le> 2 powi (e + 1) / q"
    using q by (simp add: divide_right_mono)
  then have "x / q \<le> 2 ^ p" by (simp only: top)
  then have "rne (x / q) \<le> rne (2 ^ p)"
    by (rule rne_mono)
  then have "rne (x / q) \<le> 2 ^ p"
    by simp
  then have "(of_int (rne (x / q)) :: real) \<le> 2 ^ p"
    by simp
  then have "of_int (rne (x / q)) * q \<le> 2 ^ p * q"
    using q by (intro mult_right_mono) simp_all
  also have "2 ^ p * q = 2 powi (e + 1)"
    using top q by (simp add: field_simps)
  finally show ?thesis
    using assms by (simp add: roundTo_def Let_def e_def q_def)
qed

lemma roundTo_lower:
  assumes "0 < p" and "0 < x" and "emin \<le> expo x"
  shows "2 powi (expo x) \<le> roundTo p emin x"
proof -
  define e where "e = expo x"
  define q :: real where "q = 2 powi (e - int p + 1)"
  have q: "0 < q" by (simp add: q_def)
  have m: "max (expo \<bar>x\<bar>) emin = e"
    using assms by (simp add: e_def)
  have bot: "2 powi e / q = 2 ^ (p - 1)"
    unfolding q_def using assms(1) by (rule pow2_grid_bottom)
  have "2 powi e / q \<le> x / q"
    using q expo_bounds [OF assms(2)] by (simp add: divide_right_mono e_def)
  then have "2 ^ (p - 1) \<le> x / q" by (simp only: bot)
  then have "rne (2 ^ (p - 1)) \<le> rne (x / q)"
    by (rule rne_mono)
  then have "2 ^ (p - 1) \<le> rne (x / q)"
    by simp
  then have "(2 ^ (p - 1) :: real) \<le> of_int (rne (x / q))"
    by simp
  then have "2 ^ (p - 1) * q \<le> of_int (rne (x / q)) * q"
    using q by (intro mult_right_mono) simp_all
  moreover have "2 ^ (p - 1) * q = 2 powi e"
    using bot q by (simp add: field_simps)
  moreover have "roundTo p emin x = of_int (rne (x / q)) * q"
    by (simp add: roundTo_def Let_def m q_def)
  ultimately show ?thesis
    by (simp add: e_def)
qed


lemma roundTo_mono_pos:
  assumes "0 < p" and "0 < x" and "x \<le> y"
  shows "roundTo p emin x \<le> roundTo p emin y"
proof -
  have y: "0 < y" using assms by simp
  define ex where "ex = max (expo x) emin"
  define ey where "ey = max (expo y) emin"
  have le: "ex \<le> ey"
    using expo_mono [OF assms(2,3)] by (simp add: ex_def ey_def)
  show ?thesis
  proof (cases "ex = ey")
    case True
    define q :: real where "q = 2 powi (ex - int p + 1)"
    have q: "0 < q" by (simp add: q_def)
    have "x / q \<le> y / q" using assms(3) q by (simp add: divide_right_mono)
    then have "rne (x / q) \<le> rne (y / q)" by (rule rne_mono)
    then have "(of_int (rne (x / q)) :: real) * q \<le> of_int (rne (y / q)) * q"
      using q by (intro mult_right_mono) simp_all
    moreover have "roundTo p emin x = of_int (rne (x / q)) * q"
      using assms(2) by (simp add: roundTo_def Let_def ex_def q_def)
    moreover have "roundTo p emin y = of_int (rne (y / q)) * q"
      using y True by (simp add: roundTo_def Let_def ex_def ey_def q_def)
    ultimately show ?thesis by simp
  next
    case False
    with le have lt: "ex < ey" by simp
    then have n: "emin \<le> expo y" and ey: "ey = expo y"
      unfolding ex_def ey_def by linarith+
    have "roundTo p emin x \<le> 2 powi (ex + 1)"
      unfolding ex_def using assms(2) by (rule roundTo_upper)
    also have "\<dots> \<le> 2 powi ey"
      using lt by (intro pow2_le) simp
    also have "\<dots> \<le> roundTo p emin y"
      unfolding ey using assms(1) y n by (rule roundTo_lower)
    finally show ?thesis .
  qed
qed

lemma roundTo_mono:
  assumes "0 < p" and "x \<le> y"
  shows "roundTo p emin x \<le> roundTo p emin y"
proof -
  consider "0 < x" | "x \<le> 0" "0 \<le> y" | "y < 0"
    using assms(2) by linarith
  then show ?thesis
  proof cases
    case 1
    then show ?thesis using assms by (simp add: roundTo_mono_pos)
  next
    case 2
    have "roundTo p emin x = - roundTo p emin (- x)"
      by (simp add: roundTo_minus)
    also have "\<dots> \<le> 0"
      using 2(1) roundTo_nonneg [of "- x" p emin] by simp
    also have "0 \<le> roundTo p emin y"
      using 2(2) by (rule roundTo_nonneg)
    finally show ?thesis .
  next
    case 3
    then have "roundTo p emin (- y) \<le> roundTo p emin (- x)"
      using assms by (intro roundTo_mono_pos) simp_all
    then show ?thesis by (simp add: roundTo_minus)
  qed
qed

lemma roundTo_idem_pos:
  assumes "0 < p" and "0 < x"
  shows "roundTo p emin (roundTo p emin x) = roundTo p emin x"
proof -
  define e where "e = max (expo x) emin"
  define q :: real where "q = 2 powi (e - int p + 1)"
  define m where "m = rne (x / q)"
  define y where "y = roundTo p emin x"
  have q: "0 < q" by (simp add: q_def)
  have y: "y = of_int m * q"
    using assms(2) by (simp add: y_def roundTo_def Let_def e_def q_def m_def)
  have m0: "0 \<le> m"
    unfolding m_def using assms(2) q by (intro rne_nonneg) simp
  have top: "2 powi (e + 1) / q = 2 ^ p"
    unfolding q_def by (rule pow2_grid_top)
  have up: "y \<le> 2 powi (e + 1)"
    unfolding y_def e_def using assms(2) by (rule roundTo_upper)
  show ?thesis
  proof (cases "m = 0")
    case True
    then show ?thesis using y by (simp add: y_def [symmetric])
  next
    case False
    with m0 have mpos: "0 < m" by simp
    then have ypos: "0 < y" using y q by simp
    show ?thesis
    proof (cases "y = 2 powi (e + 1)")
      case True
      have ex: "expo y = e + 1"
        by (rule expo_eq) (use ypos True in \<open>simp_all add: pow2_less\<close>)
      have "emin \<le> e" by (simp add: e_def)
      then have mx: "max (expo \<bar>y\<bar>) emin = e + 1"
        using ypos ex by simp
      have "y / 2 powi (e + 1 - int p + 1) = 2 powi (e + 1) / 2 powi ((e + 1) - int p + 1)"
        using True by simp
      also have "\<dots> = 2 ^ (p - 1)"
        using assms(1) by (rule pow2_grid_bottom)
      finally have d: "y / 2 powi (e + 1 - int p + 1) = 2 ^ (p - 1)" .
      have "roundTo p emin y = of_int (rne (2 ^ (p - 1))) * 2 powi (e + 1 - int p + 1)"
        by (simp only: roundTo_def Let_def mx d)
      also have "\<dots> = 2 ^ (p - 1) * 2 powi (e + 1 - int p + 1)"
        by simp
      also have "\<dots> = y"
        using d by (simp add: field_simps)
      finally show ?thesis by (simp add: y_def)
    next
      case False
      with up have lt: "y < 2 powi (e + 1)" by simp
      have "expo y \<le> e"
      proof -
        have "2 powi (expo y) \<le> y" using expo_bounds [OF ypos] by simp
        with lt have "(2::real) powi (expo y) < 2 powi (e + 1)" by simp
        then have "expo y < e + 1" by (rule pow2_less_D)
        then show ?thesis by simp
      qed
      moreover have "e \<le> max (expo y) emin"
      proof (cases "emin \<le> expo x")
        case True
        then have "e = expo x" by (simp add: e_def)
        moreover have "2 powi (expo x) \<le> y"
          unfolding y_def using assms True by (rule roundTo_lower)
        then have "expo (2 powi (expo x)) \<le> expo y"
          by (intro expo_mono) simp_all
        moreover have "expo (2 powi (expo x)) = expo x"
          by (rule expo_eq) (simp_all add: pow2_less)
        ultimately show ?thesis by simp
      next
        case False
        then show ?thesis by (simp add: e_def)
      qed
      moreover have "emin \<le> e" by (simp add: e_def)
      ultimately have mx: "max (expo \<bar>y\<bar>) emin = e"
        using ypos by simp
      have "y / q = of_int m" using y q by simp
      then have "roundTo p emin y = of_int (rne (of_int m)) * q"
        by (simp add: roundTo_def Let_def mx q_def)
      then show ?thesis
        using y by (simp add: y_def [symmetric])
    qed
  qed
qed

lemma roundTo_idem:
  assumes "0 < p"
  shows "roundTo p emin (roundTo p emin x) = roundTo p emin x"
proof -
  consider "0 < x" | "x = 0" | "x < 0" by linarith
  then show ?thesis
  proof cases
    case 1
    then show ?thesis using assms by (rule roundTo_idem_pos [rotated])
  next
    case 2
    then show ?thesis by simp
  next
    case 3
    then have "roundTo p emin (roundTo p emin (- x)) = roundTo p emin (- x)"
      using assms by (intro roundTo_idem_pos) simp_all
    then show ?thesis by (simp add: roundTo_minus)
  qed
qed

lemma roundTo_rel_error:
  assumes "2 powi emin \<le> \<bar>x\<bar>"
  shows "\<bar>roundTo p emin x - x\<bar> \<le> \<bar>x\<bar> / 2 ^ p"
proof -
  have pos: "0 < \<bar>x\<bar>"
  proof -
    have "(0::real) < 2 powi emin" by simp
    with assms show ?thesis by linarith
  qed
  have b: "2 powi (expo \<bar>x\<bar>) \<le> \<bar>x\<bar>" "\<bar>x\<bar> < 2 powi (expo \<bar>x\<bar> + 1)"
    using expo_bounds [OF pos] by simp_all
  from assms b(2) have "(2::real) powi emin < 2 powi (expo \<bar>x\<bar> + 1)" by simp
  then have "emin < expo \<bar>x\<bar> + 1" by (rule pow2_less_D)
  then have mx: "max (expo \<bar>x\<bar>) emin = expo \<bar>x\<bar>" by simp
  have "\<bar>roundTo p emin x - x\<bar> \<le> 2 powi (expo \<bar>x\<bar> - int p)"
    using roundTo_error [of p emin x] by (simp only: mx)
  also have "\<dots> = 2 powi (expo \<bar>x\<bar>) / 2 powi (int p)"
    by (rule pow2_diff)
  also have "\<dots> = 2 powi (expo \<bar>x\<bar>) / 2 ^ p"
    by simp
  also have "\<dots> \<le> \<bar>x\<bar> / 2 ^ p"
    using b(1) by (simp add: divide_right_mono)
  finally show ?thesis .
qed

lemma roundTo_half:
  assumes "2 powi (emin + 1) \<le> \<bar>x\<bar>"
  shows "roundTo p emin (x / 2) = roundTo p emin x / 2"
proof -
  have pos: "0 < \<bar>x\<bar>"
  proof -
    have "(0::real) < 2 powi (emin + 1)" by simp
    with assms show ?thesis by linarith
  qed
  have b: "2 powi (expo \<bar>x\<bar>) \<le> \<bar>x\<bar>" "\<bar>x\<bar> < 2 powi (expo \<bar>x\<bar> + 1)"
    using expo_bounds [OF pos] by simp_all
  from assms b(2) have "(2::real) powi (emin + 1) < 2 powi (expo \<bar>x\<bar> + 1)" by simp
  then have lt: "emin + 1 < expo \<bar>x\<bar> + 1" by (rule pow2_less_D)
  have eh: "expo \<bar>x / 2\<bar> = expo \<bar>x\<bar> - 1"
  proof (rule expo_eq)
    show "0 < \<bar>x / 2\<bar>" using pos by simp
    show "2 powi (expo \<bar>x\<bar> - 1) \<le> \<bar>x / 2\<bar>"
      using b(1) by (simp add: pow2_pred)
    show "\<bar>x / 2\<bar> < 2 powi (expo \<bar>x\<bar> - 1 + 1)"
      using b(2) by (simp add: pow2_Suc)
  qed
  have m1: "max (expo \<bar>x\<bar>) emin = expo \<bar>x\<bar>" using lt by simp
  have m2: "max (expo \<bar>x / 2\<bar>) emin = expo \<bar>x\<bar> - 1" using lt eh by simp
  have q: "(2::real) powi (expo \<bar>x\<bar> - 1 - int p + 1) = 2 powi (expo \<bar>x\<bar> - int p + 1) / 2"
  proof -
    have "expo \<bar>x\<bar> - 1 - int p + 1 = (expo \<bar>x\<bar> - int p + 1) - 1" by simp
    then show ?thesis by (simp only: pow2_pred)
  qed
  show ?thesis
    by (simp only: roundTo_def Let_def m1 m2 q) simp
qed

section \<open>Properties of the grid cube\<close>

subsection \<open>Doubles and 32-bit floats\<close>

lemma roundTo_abs_error:
  assumes "\<bar>x\<bar> \<le> B" and "2 powi emin \<le> B"
  shows "\<bar>roundTo p emin x - x\<bar> \<le> B / 2 ^ p"
proof -
  have B: "0 < B"
  proof -
    have "(0::real) < 2 powi emin" by simp
    with assms(2) show ?thesis by linarith
  qed
  consider "x = 0" | "2 powi emin \<le> \<bar>x\<bar>" | "x \<noteq> 0" "\<bar>x\<bar> < 2 powi emin"
    by linarith
  then show ?thesis
  proof cases
    case 1
    then show ?thesis using B by simp
  next
    case 2
    then have "\<bar>roundTo p emin x - x\<bar> \<le> \<bar>x\<bar> / 2 ^ p"
      by (rule roundTo_rel_error)
    also have "\<dots> \<le> B / 2 ^ p"
      using assms(1) by (simp add: divide_right_mono)
    finally show ?thesis .
  next
    case 3
    then have "0 < \<bar>x\<bar>" by simp
    then have "2 powi (expo \<bar>x\<bar>) \<le> \<bar>x\<bar>" using expo_bounds by simp
    with 3(2) have "(2::real) powi (expo \<bar>x\<bar>) < 2 powi emin" by simp
    then have "expo \<bar>x\<bar> < emin" by (rule pow2_less_D)
    then have mx: "max (expo \<bar>x\<bar>) emin = emin" by simp
    have "\<bar>roundTo p emin x - x\<bar> \<le> 2 powi (emin - int p)"
      using roundTo_error [of p emin x] by (simp only: mx)
    also have "\<dots> = 2 powi emin / 2 powi (int p)"
      by (rule pow2_diff)
    also have "\<dots> = 2 powi emin / 2 ^ p"
      by simp
    also have "\<dots> \<le> B / 2 ^ p"
      using assms(2) by (simp add: divide_right_mono)
    finally show ?thesis .
  qed
qed

lemma double_0 [simp]: "double 0 = 0"
  by (simp add: double_def)

lemma double_minus: "double (- x) = - double x"
  by (simp add: double_def roundTo_minus)

lemma double_mono: "x \<le> y \<Longrightarrow> double x \<le> double y"
  by (simp add: double_def roundTo_mono)

lemma double_idem [simp]: "double (double x) = double x"
  by (simp add: double_def roundTo_idem)

lemma double_nonneg: "0 \<le> x \<Longrightarrow> 0 \<le> double x"
  by (simp add: double_def roundTo_nonneg)

lemma double_rel_error:
  "2 powi (- 1022) \<le> \<bar>x\<bar> \<Longrightarrow> \<bar>double x - x\<bar> \<le> \<bar>x\<bar> / 2 ^ 53"
  unfolding double_def by (rule roundTo_rel_error)

lemma double_abs_error:
  "\<bar>x\<bar> \<le> B \<Longrightarrow> 2 powi (- 1022) \<le> B \<Longrightarrow> \<bar>double x - x\<bar> \<le> B / 2 ^ 53"
  unfolding double_def by (rule roundTo_abs_error)

lemma double_half:
  "2 powi (- 1021) \<le> \<bar>x\<bar> \<Longrightarrow> double (x / 2) = double x / 2"
  unfolding double_def by (rule roundTo_half) simp

lemma fround_0 [simp]: "fround 0 = 0"
  by (simp add: fround_def)

lemma fround_minus: "fround (- x) = - fround x"
  by (simp add: fround_def roundTo_minus)

lemma fround_mono: "x \<le> y \<Longrightarrow> fround x \<le> fround y"
  by (simp add: fround_def roundTo_mono)

lemma fround_rel_error:
  "2 powi (- 126) \<le> \<bar>x\<bar> \<Longrightarrow> \<bar>fround x - x\<bar> \<le> \<bar>x\<bar> / 2 ^ 24"
  unfolding fround_def by (rule roundTo_rel_error)

lemma fround_abs_error:
  "\<bar>x\<bar> \<le> B \<Longrightarrow> 2 powi (- 126) \<le> B \<Longrightarrow> \<bar>fround x - x\<bar> \<le> B / 2 ^ 24"
  unfolding fround_def by (rule roundTo_abs_error)

lemma fround_abs_le:
  assumes "\<bar>x\<bar> \<le> h"
  shows "\<bar>fround x\<bar> \<le> fround h"
proof -
  from assms have "- h \<le> x" "x \<le> h" by simp_all
  then have "fround (- h) \<le> fround x" "fround x \<le> fround h"
    by (simp_all add: fround_mono)
  then show ?thesis by (simp add: fround_minus abs_le_iff)
qed

subsection \<open>What the loop computes\<close>

lemma copy_eq [simp]: "copy this v = v"
  by (simp add: copy_def)

lemma clone_eq [simp]: "clone v = v"
  by (simp add: clone_def)

lemma segmentsOf_flatten: "segmentsOf (flatten xs) = xs"
  by (induction xs) auto

lemma segmentsOf_Float32: 
  "segmentsOf (Float32BufferAttribute (flatten xs)) = map froundSegment xs"
  by (induction xs) (auto simp add: Float32BufferAttribute_def froundSegment_def froundVector_def)

lemma makeFaceGrid_loop_eq:
  "makeFaceGrid_loop n half stp offset uDir vDir i lines =
     lines @ flatten (concat (map (\<lambda>i. [hline half offset uDir vDir (gridOffset half stp i),
                                        vline half offset uDir vDir (gridOffset half stp i)])
                                  [i..n - 1]))"
proof (induction n half stp offset uDir vDir i lines rule: makeFaceGrid_loop.induct)
  case (1 n half stp offset uDir vDir i lines)
  show ?case
  proof (cases "i < n")
    case True
    then have u: "[i..n - 1] = i # [i + 1..n - 1]"
      by (simp add: upto_rec1)
    show ?thesis
      using True 1
      by (subst makeFaceGrid_loop.simps)
         (simp add: u Let_def hline_def vline_def gridOffset_def)
  next
    case False
    then show ?thesis
      by (subst makeFaceGrid_loop.simps) simp
  qed
qed

lemma segments_makeFaceGrid:
  "segments (makeFaceGrid n half stp offset uDir vDir) =
     map froundSegment (faceLines n half stp offset uDir vDir)"
  by (simp add: makeFaceGrid_def makeFaceGrid_loop_eq segmentsOf_Float32 faceLines_def
      gridOffsets_def comp_def)

lemma length_faceLines: "length (faceLines n half stp offset uDir vDir) = 2 * nat (n - 1)"
  by (simp add: faceLines_def gridOffsets_def length_concat comp_def sum_list_triv)

lemma length_boxEdges: "length (boxEdges w h d) = 12"
  by (simp add: boxEdges_def Let_def)

lemma segmentsOf_EdgesGeometry: "segmentsOf (EdgesGeometry w h d) = boxEdges w h d"
  by (simp add: EdgesGeometry_def segmentsOf_flatten)

lemma children_buildCubeGrid:
  "children (buildCubeGrid n sz) =
     [Mesh sz sz sz (faceMat\<lparr>opacity := 95 / 100, transparent := True\<rparr>),
      LineSegments (EdgesGeometry sz sz sz) edgeMat,
      makeFaceGrid n (double (sz / 2)) (double (sz / of_int n))
        (Vector3 0 0 (double (double (sz / 2) + double (1 / 1000))))
        (Vector3 1 0 0) (Vector3 0 1 0),
      makeFaceGrid n (double (sz / 2)) (double (sz / of_int n))
        (Vector3 0 0 (double (- double (sz / 2) - double (1 / 1000))))
        (Vector3 (- 1) 0 0) (Vector3 0 1 0),
      makeFaceGrid n (double (sz / 2)) (double (sz / of_int n))
        (Vector3 (double (double (sz / 2) + double (1 / 1000))) 0 0)
        (Vector3 0 0 (- 1)) (Vector3 0 1 0),
      makeFaceGrid n (double (sz / 2)) (double (sz / of_int n))
        (Vector3 (double (- double (sz / 2) - double (1 / 1000))) 0 0)
        (Vector3 0 0 1) (Vector3 0 1 0),
      makeFaceGrid n (double (sz / 2)) (double (sz / of_int n))
        (Vector3 0 (double (double (sz / 2) + double (1 / 1000))) 0)
        (Vector3 1 0 0) (Vector3 0 0 (- 1)),
      makeFaceGrid n (double (sz / 2)) (double (sz / of_int n))
        (Vector3 0 (double (- double (sz / 2) - double (1 / 1000))) 0)
        (Vector3 1 0 0) (Vector3 0 0 1)]"
  by (simp add: buildCubeGrid_def Let_def)

text \<open>The literal \<^verbatim>\<open>2.4\<close> that \<^verbatim>\<open>init\<close> passes as the size, as a double.\<close>

lemma double_24_10: "double (24 / 10) = 5404319552844595 / 2 ^ 51"
  by (simp add: double_def roundTo_def expo.simps rne_def Let_def)

subsection \<open>Segment counts\<close>

text \<open>
  Claim C1.  For every integer \<open>n \<ge> 1\<close> and every size \<open>> 0\<close>, the node that
  \<^verbatim>\<open>buildCubeGrid(n, size)\<close> returns has eight children: the solid box, which has no line
  segment, the outer wireframe with exactly 12 edges, and six face grids with exactly
  \<open>2 (n - 1)\<close> segments each, hence \<open>12 (n - 1)\<close> grid segments in all.  The counts do not
  mention the size.
\<close>

theorem buildCubeGrid_segment_counts:
  assumes "1 \<le> n" and "0 < sz"
  shows "map segmentCount (children (buildCubeGrid n sz)) =
           [0, 12, 2 * nat (n - 1), 2 * nat (n - 1), 2 * nat (n - 1),
            2 * nat (n - 1), 2 * nat (n - 1), 2 * nat (n - 1)]
       \<and> sum_list (map segmentCount (drop 2 (children (buildCubeGrid n sz)))) =
           12 * nat (n - 1)"
  by (simp add: children_buildCubeGrid segmentCount_def segments_makeFaceGrid
      length_faceLines segmentsOf_EdgesGeometry length_boxEdges)

theorem buildCubeGrid_segment_counts_witness:
  "map segmentCount (children (buildCubeGrid 3 (double (24 / 10)))) = [0, 12, 4, 4, 4, 4, 4, 4]
   \<and> sum_list (map segmentCount (drop 2 (children (buildCubeGrid 3 (double (24 / 10)))))) = 24"
proof -
  have "0 < double (24 / 10)"
    unfolding double_24_10 by simp
  with buildCubeGrid_segment_counts [of 3 "double (24 / 10)"] show ?thesis
    by simp
qed

text \<open>
  Claim C7.  For \<open>n = 1\<close> and any size \<open>> 0\<close>, \<^verbatim>\<open>buildCubeGrid\<close> returns its node (the
  builder has no error path) and every face grid is empty: the node holds the solid box,
  the outer wireframe, and six \<^verbatim>\<open>LineSegments\<close> objects without any position, hence
  without any segment.
\<close>

theorem buildCubeGrid_undecorated:
  assumes "0 < sz"
  shows "children (buildCubeGrid 1 sz) =
           [Mesh sz sz sz (faceMat\<lparr>opacity := 95 / 100, transparent := True\<rparr>),
            LineSegments (EdgesGeometry sz sz sz) edgeMat,
            LineSegments [] edgeMat, LineSegments [] edgeMat, LineSegments [] edgeMat,
            LineSegments [] edgeMat, LineSegments [] edgeMat, LineSegments [] edgeMat]
       \<and> map segments (drop 2 (children (buildCubeGrid 1 sz))) = [[], [], [], [], [], []]"
proof -
  have "makeFaceGrid_loop 1 half stp offset uDir vDir 1 [] = []" for half stp offset uDir vDir
    by (subst makeFaceGrid_loop.simps) simp
  then show ?thesis
    by (simp add: children_buildCubeGrid makeFaceGrid_def Float32BufferAttribute_def)
qed

theorem buildCubeGrid_undecorated_witness:
  "children (buildCubeGrid 1 (double (24 / 10))) =
     [Mesh (double (24 / 10)) (double (24 / 10)) (double (24 / 10))
        (faceMat\<lparr>opacity := 95 / 100, transparent := True\<rparr>),
      LineSegments (EdgesGeometry (double (24 / 10)) (double (24 / 10)) (double (24 / 10)))
        edgeMat,
      LineSegments [] edgeMat, LineSegments [] edgeMat, LineSegments [] edgeMat,
      LineSegments [] edgeMat, LineSegments [] edgeMat, LineSegments [] edgeMat]
   \<and> map segments (drop 2 (children (buildCubeGrid 1 (double (24 / 10))))) =
       [[], [], [], [], [], []]"
proof -
  have "0 < double (24 / 10)"
    unfolding double_24_10 by simp
  then show ?thesis
    by (rule buildCubeGrid_undecorated)
qed

subsection \<open>The stored segments of each face\<close>

text \<open>
  With axis-aligned directions every product and sum of the loop but the offset itself is
  exact, so the two segments of an iteration are those of \<open>faceSegmentsAt\<close>, and the buffer
  of a face holds them narrowed to 32-bit floats.
\<close>

lemma lines_at_faces:
  assumes h: "double h = h" and t: "double t = t" and z: "double z = z"
  shows "hline h (Vector3 0 0 z) (Vector3 1 0 0) (Vector3 0 1 0) t =
           (facePoint 2 z (- h) t, facePoint 2 z h t)"
    and "vline h (Vector3 0 0 z) (Vector3 1 0 0) (Vector3 0 1 0) t =
           (facePoint 2 z t (- h), facePoint 2 z t h)"
    and "hline h (Vector3 0 0 (- z)) (Vector3 (- 1) 0 0) (Vector3 0 1 0) t =
           (facePoint 3 z (- h) t, facePoint 3 z h t)"
    and "vline h (Vector3 0 0 (- z)) (Vector3 (- 1) 0 0) (Vector3 0 1 0) t =
           (facePoint 3 z t (- h), facePoint 3 z t h)"
    and "hline h (Vector3 z 0 0) (Vector3 0 0 (- 1)) (Vector3 0 1 0) t =
           (facePoint 4 z (- h) t, facePoint 4 z h t)"
    and "vline h (Vector3 z 0 0) (Vector3 0 0 (- 1)) (Vector3 0 1 0) t =
           (facePoint 4 z t (- h), facePoint 4 z t h)"
    and "hline h (Vector3 (- z) 0 0) (Vector3 0 0 1) (Vector3 0 1 0) t =
           (facePoint 5 z (- h) t, facePoint 5 z h t)"
    and "vline h (Vector3 (- z) 0 0) (Vector3 0 0 1) (Vector3 0 1 0) t =
           (facePoint 5 z t (- h), facePoint 5 z t h)"
    and "hline h (Vector3 0 z 0) (Vector3 1 0 0) (Vector3 0 0 (- 1)) t =
           (facePoint 6 z (- h) t, facePoint 6 z h t)"
    and "vline h (Vector3 0 z 0) (Vector3 1 0 0) (Vector3 0 0 (- 1)) t =
           (facePoint 6 z t (- h), facePoint 6 z t h)"
    and "hline h (Vector3 0 (- z) 0) (Vector3 1 0 0) (Vector3 0 0 1) t =
           (facePoint 7 z (- h) t, facePoint 7 z h t)"
    and "vline h (Vector3 0 (- z) 0) (Vector3 1 0 0) (Vector3 0 0 1) t =
           (facePoint 7 z t (- h), facePoint 7 z t h)"
  by (simp_all add: hline_def vline_def add_def multiplyScalar_def facePoint_def
      double_minus h t z)

lemma froundVector_facePoint:
  "froundVector (facePoint k z a b) = facePoint k (fround z) (fround a) (fround b)"
  by (simp add: froundVector_def facePoint_def fround_minus)

lemma froundSegment_faceSegmentsAt:
  "map froundSegment (faceSegmentsAt k z h t) =
     faceSegmentsAt k (fround z) (fround h) (fround t)"
  by (simp add: faceSegmentsAt_def froundSegment_def froundVector_facePoint fround_minus)

lemma gridOffsets_double: "t \<in> set (gridOffsets n h stp) \<Longrightarrow> double t = t"
  by (auto simp add: gridOffsets_def gridOffset_def)

lemma map_concat_faceLines:
  assumes "\<And>t. t \<in> set ts \<Longrightarrow> [hl t, vl t] = faceSegmentsAt k z h t"
  shows "map froundSegment (concat (map (\<lambda>t. [hl t, vl t]) ts)) =
         concat (map (faceSegmentsAt k (fround z) (fround h)) (map fround ts))"
  using assms
  by (induction ts) (simp_all add: froundSegment_faceSegmentsAt [symmetric])


lemma nth_of_eight:
  "[a, b, c, d, e, f, g, h] ! 2 = c" "[a, b, c, d, e, f, g, h] ! 3 = d"
  "[a, b, c, d, e, f, g, h] ! 4 = e" "[a, b, c, d, e, f, g, h] ! 5 = f"
  "[a, b, c, d, e, f, g, h] ! 6 = g" "[a, b, c, d, e, f, g, h] ! 7 = h"
  by (simp_all add: numeral_nat)

lemma storedOffsets_eq:
  "map fround (gridOffsets n (double (sz / 2)) (double (sz / of_int n))) =
   map (storedOffset n sz) [1..n - 1]"
  by (simp add: gridOffsets_def storedOffset_def comp_def)

lemma double_neg_offset:
  "double (- double (sz / 2) - double (1 / 1000)) =
   - double (double (sz / 2) + double (1 / 1000))"
proof -
  have "- double (sz / 2) - double (1 / 1000) = - (double (sz / 2) + double (1 / 1000))"
    by simp
  then show ?thesis by (simp only: double_minus)
qed

lemma face_segments:
  assumes "k \<in> {2, 3, 4, 5, 6, 7}"
  shows "segments (children (buildCubeGrid n sz) ! k) =
           concat (map (faceSegmentsAt k (storedNormal sz) (storedHalf sz))
                       (map (storedOffset n sz) [1..n - 1]))"
proof -
  define H where "H = double (sz / 2)"
  define Z where "Z = double (H + double (1 / 1000))"
  define T where "T = gridOffsets n H (double (sz / of_int n))"
  have H: "double H = H" and Z: "double Z = Z"
    by (simp_all add: H_def Z_def)
  have T: "double t = t" if "t \<in> set T" for t
    using that unfolding T_def by (rule gridOffsets_double)
  note L = lines_at_faces [OF H T Z]
  have st: "map fround T = map (storedOffset n sz) [1..n - 1]"
    unfolding T_def H_def by (rule storedOffsets_eq)
  have nz: "double (- H - double (1 / 1000)) = - Z"
    unfolding H_def Z_def by (rule double_neg_offset)
  have c: "children (buildCubeGrid n sz) =
     [Mesh sz sz sz (faceMat\<lparr>opacity := 95 / 100, transparent := True\<rparr>),
      LineSegments (EdgesGeometry sz sz sz) edgeMat,
      makeFaceGrid n H (double (sz / of_int n)) (Vector3 0 0 Z) (Vector3 1 0 0) (Vector3 0 1 0),
      makeFaceGrid n H (double (sz / of_int n)) (Vector3 0 0 (- Z)) (Vector3 (- 1) 0 0)
        (Vector3 0 1 0),
      makeFaceGrid n H (double (sz / of_int n)) (Vector3 Z 0 0) (Vector3 0 0 (- 1))
        (Vector3 0 1 0),
      makeFaceGrid n H (double (sz / of_int n)) (Vector3 (- Z) 0 0) (Vector3 0 0 1)
        (Vector3 0 1 0),
      makeFaceGrid n H (double (sz / of_int n)) (Vector3 0 Z 0) (Vector3 1 0 0)
        (Vector3 0 0 (- 1)),
      makeFaceGrid n H (double (sz / of_int n)) (Vector3 0 (- Z) 0) (Vector3 1 0 0)
        (Vector3 0 0 1)]"
    unfolding children_buildCubeGrid nz [unfolded H_def] by (simp only: H_def Z_def)
  have g: "segments (makeFaceGrid n H (double (sz / of_int n)) off u v) =
      concat (map (faceSegmentsAt j (storedNormal sz) (storedHalf sz))
                  (map (storedOffset n sz) [1..n - 1]))"
    if "\<And>t. t \<in> set T \<Longrightarrow>
          [hline H off u v t, vline H off u v t] = faceSegmentsAt j Z H t" for off u v j
  proof -
    have "segments (makeFaceGrid n H (double (sz / of_int n)) off u v) =
        map froundSegment (concat (map (\<lambda>t. [hline H off u v t, vline H off u v t]) T))"
      by (simp only: segments_makeFaceGrid faceLines_def T_def)
    also have "\<dots> = concat (map (faceSegmentsAt j (fround Z) (fround H)) (map fround T))"
      using that by (rule map_concat_faceLines)
    finally show ?thesis
      by (simp only: st) (simp only: storedNormal_def storedHalf_def Z_def H_def)
  qed
  from assms consider "k = 2" | "k = 3" | "k = 4" | "k = 5" | "k = 6" | "k = 7"
    by auto
  then show ?thesis
  proof cases
    case 1
    show ?thesis
      unfolding 1 c nth_of_eight by (rule g) (simp add: L faceSegmentsAt_def)
  next
    case 2
    show ?thesis
      unfolding 2 c nth_of_eight by (rule g) (simp add: L faceSegmentsAt_def)
  next
    case 3
    show ?thesis
      unfolding 3 c nth_of_eight by (rule g) (simp add: L faceSegmentsAt_def)
  next
    case 4
    show ?thesis
      unfolding 4 c nth_of_eight by (rule g) (simp add: L faceSegmentsAt_def)
  next
    case 5
    show ?thesis
      unfolding 5 c nth_of_eight by (rule g) (simp add: L faceSegmentsAt_def)
  next
    case 6
    show ?thesis
      unfolding 6 c nth_of_eight by (rule g) (simp add: L faceSegmentsAt_def)
  qed
qed

subsection \<open>The rounding error of an offset\<close>

text \<open>
  For a double size in the range and \<open>n \<le> 2\<^sup>5\<^sup>3\<close>, halving the size is exact, the rounded
  product \<open>i * step\<close> stays between 0 and the size, and the computed offset stays between
  \<open>-size/2\<close> and \<open>size/2\<close>, within \<open>5 size / 2\<^sup>5\<^sup>4\<close> of the exact offset.
\<close>

lemma pow2_m1022_le_m100: "(2::real) powi (- 1022) \<le> 2 powi (- 100)"
  by (rule pow2_le) simp

lemma pow2_m153: "(2::real) powi (- 100) / 2 ^ 53 = 2 powi (- 153)"
proof -
  have "(2::real) powi (- 153) = 2 powi (- 100 - 53)" by simp
  also have "\<dots> = 2 powi (- 100) / 2 powi 53" by (rule pow2_diff)
  finally show ?thesis by simp
qed

lemma half_exact:
  assumes "double sz = sz" and "2 powi (- 100) \<le> sz"
  shows "double (sz / 2) = sz / 2"
proof -
  have "(2::real) powi (- 1021) \<le> 2 powi (- 100)" by (rule pow2_le) simp
  with assms(2) have "2 powi (- 1021) \<le> \<bar>sz\<bar>" by simp
  then have "double (sz / 2) = double sz / 2" by (rule double_half)
  then show ?thesis by (simp add: assms(1))
qed

lemma offset_analysis:
  fixes sz :: real and n i :: int
  assumes i: "1 \<le> i" "i \<le> n - 1" and n: "n \<le> 2 ^ 53"
    and d: "double sz = sz" and lo: "2 powi (- 100) \<le> sz"
  shows "\<bar>double (- (sz / 2) + double (of_int i * double (sz / of_int n)))\<bar> \<le> sz / 2"
    and "\<bar>double (- (sz / 2) + double (of_int i * double (sz / of_int n)))
           - (- (sz / 2) + of_int i * (sz / of_int n))\<bar> \<le> 5 * sz / 2 ^ 54"
proof -
  define N :: real where "N = of_int n"
  define a :: real where "a = of_int i"
  define r where "r = sz / N"
  define stp where "stp = double r"
  define x where "x = a * stp"
  define P where "P = double x"
  define y where "y = - (sz / 2) + P"
  define t where "t = double y"
  have szpos: "0 < sz"
  proof -
    have "(0::real) < 2 powi (- 100)" by simp
    with lo show ?thesis by linarith
  qed
  have a: "1 \<le> a" "a \<le> N - 1" and N: "N \<le> 2 ^ 53" "2 \<le> N"
    using i n by (simp_all add: a_def N_def) (linarith+)?
  have N0: "0 < N" using N by simp
  have rpos: "0 < r" using szpos N0 by (simp add: r_def)
  have Nr: "N * r = sz" using N0 by (simp add: r_def)
  have rlow: "2 powi (- 1022) \<le> \<bar>r\<bar>"
  proof -
    have "(2::real) powi (- 1022) \<le> 2 powi (- 153)" by (rule pow2_le) simp
    also have "\<dots> = 2 powi (- 100) / 2 ^ 53" by (rule pow2_m153 [symmetric])
    also have "\<dots> \<le> sz / 2 ^ 53" using lo by (simp add: divide_right_mono)
    also have "\<dots> \<le> sz / N"
      using N N0 szpos by (intro divide_left_mono) simp_all
    finally have "2 powi (- 1022) \<le> r" unfolding r_def .
    also have "r = \<bar>r\<bar>" using rpos by simp
    finally show ?thesis .
  qed
  have stp: "\<bar>stp - r\<bar> \<le> r / 2 ^ 53"
    using double_rel_error [OF rlow] rpos by (simp add: stp_def)
  have stp0: "0 \<le> stp"
    unfolding stp_def using rpos by (intro double_nonneg) simp
  have ar: "a * r \<le> sz - r"
  proof -
    have "a * r \<le> (N - 1) * r" using a rpos by (intro mult_right_mono) simp_all
    also have "\<dots> = sz - r" using Nr by (simp add: algebra_simps)
    finally show ?thesis .
  qed
  have ar0: "0 \<le> a * r" using a rpos by simp
  have aru: "a * (r / 2 ^ 53) \<le> r"
  proof -
    have "a \<le> 2 ^ 53" using a N by linarith
    then have "a * (r / 2 ^ 53) \<le> 2 ^ 53 * (r / 2 ^ 53)"
      using rpos by (intro mult_right_mono) simp_all
    then show ?thesis by simp
  qed
  have xerr: "\<bar>x - a * r\<bar> \<le> a * (r / 2 ^ 53)"
  proof -
    have "x - a * r = a * (stp - r)" by (simp add: x_def algebra_simps)
    then have "\<bar>x - a * r\<bar> = a * \<bar>stp - r\<bar>" using a by (simp add: abs_mult)
    also have "\<dots> \<le> a * (r / 2 ^ 53)" using stp a by (intro mult_left_mono) simp_all
    finally show ?thesis .
  qed
  have aru2: "a * (r / 2 ^ 53) \<le> sz / 2 ^ 53"
  proof -
    have "a * (r / 2 ^ 53) = (a * r) / 2 ^ 53" by simp
    also have "\<dots> \<le> sz / 2 ^ 53" using ar rpos by (intro divide_right_mono) simp_all
    finally show ?thesis .
  qed
  have x0: "0 \<le> x" using a stp0 by (simp add: x_def)
  have xs: "x \<le> sz" using xerr aru ar unfolding abs_le_iff by linarith
  have szlow: "2 powi (- 1022) \<le> sz" using lo pow2_m1022_le_m100 by linarith
  have P0: "0 \<le> P" unfolding P_def using x0 by (rule double_nonneg)
  have Ps: "P \<le> sz"
  proof -
    have "double x \<le> double sz" using xs by (rule double_mono)
    then show ?thesis by (simp add: P_def d)
  qed
  have Perr: "\<bar>P - x\<bar> \<le> sz / 2 ^ 53"
    unfolding P_def using x0 xs szlow by (intro double_abs_error) simp_all
  have h: "double (sz / 2) = sz / 2" using d lo by (rule half_exact)
  have hm: "double (- (sz / 2)) = - (sz / 2)" by (simp add: double_minus h)
  have yb: "- (sz / 2) \<le> y" "y \<le> sz / 2" using P0 Ps by (simp_all add: y_def)
  have tb: "- (sz / 2) \<le> t" "t \<le> sz / 2"
    using double_mono [OF yb(1)] double_mono [OF yb(2)] by (simp_all add: t_def h hm)
  have hlow: "2 powi (- 1022) \<le> sz / 2"
  proof -
    have "(2::real) powi (- 1022) \<le> 2 powi (- 101)" by (rule pow2_le) simp
    also have "\<dots> = 2 powi (- 100) / 2"
    proof -
      have "(2::real) powi (- 101) = 2 powi (- 100 - 1)" by simp
      then show ?thesis by (simp only: pow2_pred)
    qed
    also have "\<dots> \<le> sz / 2" using lo by simp
    finally show ?thesis .
  qed
  have terr: "\<bar>t - y\<bar> \<le> sz / 2 / 2 ^ 53"
    unfolding t_def using yb hlow by (intro double_abs_error) (simp_all add: abs_le_iff)
  have unfold: "double (- (sz / 2) + double (of_int i * double (sz / of_int n))) = t"
    by (simp add: t_def y_def P_def x_def stp_def r_def a_def N_def)
  have ideal: "- (sz / 2) + of_int i * (sz / of_int n) = - (sz / 2) + a * r"
    by (simp add: a_def r_def N_def)
  show "\<bar>double (- (sz / 2) + double (of_int i * double (sz / of_int n)))\<bar> \<le> sz / 2"
    unfolding unfold using tb by (simp add: abs_le_iff)
  have "t - (- (sz / 2) + a * r) = (t - y) + (P - x) + (x - a * r)"
    by (simp add: y_def)
  then have "\<bar>t - (- (sz / 2) + a * r)\<bar> \<le> \<bar>t - y\<bar> + \<bar>P - x\<bar> + \<bar>x - a * r\<bar>"
    by linarith
  also have "\<dots> \<le> sz / 2 / 2 ^ 53 + sz / 2 ^ 53 + sz / 2 ^ 53"
    using terr Perr xerr aru2 by linarith
  also have "\<dots> = 5 * sz / 2 ^ 54"
    by simp
  finally show "\<bar>double (- (sz / 2) + double (of_int i * double (sz / of_int n)))
           - (- (sz / 2) + of_int i * (sz / of_int n))\<bar> \<le> 5 * sz / 2 ^ 54"
    unfolding unfold ideal .
qed

lemma pow2_m126_le_half:
  fixes sz :: real
  assumes "2 powi (- 100) \<le> sz"
  shows "2 powi (- 126) \<le> sz / 2"
proof -
  have "(2::real) powi (- 126) \<le> 2 powi (- 101)" by (rule pow2_le) simp
  also have "\<dots> = 2 powi (- 100) / 2"
  proof -
    have "(2::real) powi (- 101) = 2 powi (- 100 - 1)" by simp
    then show ?thesis by (simp only: pow2_pred)
  qed
  also have "\<dots> \<le> sz / 2" using assms by simp
  finally show ?thesis .
qed

lemma storedHalf_eq:
  assumes "double sz = sz" and "2 powi (- 100) \<le> sz"
  shows "storedHalf sz = fround (sz / 2)"
  by (simp add: storedHalf_def half_exact [OF assms])

lemma storedHalf_error:
  assumes "double sz = sz" and "2 powi (- 100) \<le> sz"
  shows "\<bar>storedHalf sz - sz / 2\<bar> \<le> sz / 2 / 2 ^ 24"
proof -
  have p: "0 \<le> sz / 2"
  proof -
    have "(0::real) < 2 powi (- 100)" by simp
    with assms(2) show ?thesis by simp
  qed
  have "\<bar>fround (sz / 2) - sz / 2\<bar> \<le> sz / 2 / 2 ^ 24"
    using p pow2_m126_le_half [OF assms(2)] by (intro fround_abs_error) simp_all
  then show ?thesis by (simp only: storedHalf_eq [OF assms])
qed

lemma storedOffset_eq:
  assumes "double sz = sz" and "2 powi (- 100) \<le> sz"
  shows "storedOffset n sz i =
           fround (double (- (sz / 2) + double (of_int i * double (sz / of_int n))))"
  by (simp add: storedOffset_def gridOffset_def half_exact [OF assms])

lemma storedOffset_bound:
  assumes "1 \<le> i" "i \<le> n - 1" "n \<le> 2 ^ 53" "double sz = sz" "2 powi (- 100) \<le> sz"
  shows "\<bar>storedOffset n sz i\<bar> \<le> storedHalf sz"
  unfolding storedOffset_eq [OF assms(4,5)] storedHalf_eq [OF assms(4,5)]
  using offset_analysis(1) [OF assms] by (rule fround_abs_le)

lemma storedOffset_error:
  assumes "1 \<le> i" "i \<le> n - 1" "n \<le> 2 ^ 53" "double sz = sz" "2 powi (- 100) \<le> sz"
  shows "\<bar>storedOffset n sz i - (- (sz / 2) + of_int i * (sz / of_int n))\<bar>
           \<le> sz / 2 ^ 25 + 5 * sz / 2 ^ 54"
proof -
  define t where "t = double (- (sz / 2) + double (of_int i * double (sz / of_int n)))"
  have tb: "\<bar>t\<bar> \<le> sz / 2"
    unfolding t_def using assms by (rule offset_analysis(1))
  have te: "\<bar>t - (- (sz / 2) + of_int i * (sz / of_int n))\<bar> \<le> 5 * sz / 2 ^ 54"
    unfolding t_def using assms by (rule offset_analysis(2))
  have "\<bar>fround t - t\<bar> \<le> sz / 2 / 2 ^ 24"
    using tb pow2_m126_le_half [OF assms(5)] by (rule fround_abs_error)
  then have fe: "\<bar>fround t - t\<bar> \<le> sz / 2 ^ 25"
    by simp
  have "storedOffset n sz i = fround t"
    unfolding t_def by (rule storedOffset_eq [OF assms(4,5)])
  then show ?thesis
    using fe te by linarith
qed

lemma storedOffset_symmetric:
  assumes "1 \<le> i" "i \<le> n - 1" "n \<le> 2 ^ 53" "double sz = sz" "2 powi (- 100) \<le> sz"
  shows "\<bar>storedOffset n sz i + storedOffset n sz (n - i)\<bar> \<le> sz / 2 ^ 23"
proof -
  have szpos: "0 < sz"
  proof -
    have "(0::real) < 2 powi (- 100)" by simp
    with assms(5) show ?thesis by linarith
  qed
  have i': "1 \<le> n - i" "n - i \<le> n - 1"
    using assms(1,2) by simp_all
  define E1 where "E1 = - (sz / 2) + of_int i * (sz / of_int n)"
  define E2 where "E2 = - (sz / 2) + of_int (n - i) * (sz / of_int n)"
  define dl where "dl = sz / 2 ^ 25 + 5 * sz / 2 ^ 54"
  have e1: "\<bar>storedOffset n sz i - E1\<bar> \<le> dl"
    unfolding E1_def dl_def using assms by (rule storedOffset_error)
  have e2: "\<bar>storedOffset n sz (n - i) - E2\<bar> \<le> dl"
    unfolding E2_def dl_def using i' assms(3-5) by (rule storedOffset_error)
  have n0: "(of_int n :: real) \<noteq> 0" using assms(1,2) by auto
  have "E1 + E2 = 0"
    unfolding E1_def E2_def using n0 by (simp add: field_simps)
  then have "\<bar>storedOffset n sz i + storedOffset n sz (n - i)\<bar> \<le> 2 * dl"
    using e1 e2 by linarith
  also have "\<dots> \<le> sz / 2 ^ 23"
    unfolding dl_def using szpos by simp
  finally show ?thesis .
qed

lemma storedNormal_error:
  assumes "double sz = sz" and "2 powi (- 100) \<le> sz"
  shows "\<bar>storedNormal sz - (sz / 2 + 1 / 1000)\<bar> \<le> (sz / 2 + 1 / 1000) / 2 ^ 23"
proof -
  define c where "c = double (1 / 1000)"
  define s where "s = double (sz / 2 + c)"
  define zs where "zs = sz / 2 + 1 / 1000"
  have szpos: "0 < sz"
  proof -
    have "(0::real) < 2 powi (- 100)" by simp
    with assms(2) show ?thesis by linarith
  qed
  have k: "(2::real) powi (- 1022) \<le> 1 / 4000" "(2::real) powi (- 126) \<le> 1 / 4000"
  proof -
    have "(2::real) powi (- 12) \<le> 1 / 4000" by simp
    moreover have "(2::real) powi (- 1022) \<le> 2 powi (- 12)" by (rule pow2_le) simp
    moreover have "(2::real) powi (- 126) \<le> 2 powi (- 12)" by (rule pow2_le) simp
    ultimately show "(2::real) powi (- 1022) \<le> 1 / 4000" "(2::real) powi (- 126) \<le> 1 / 4000"
      by linarith+
  qed
  have ce: "\<bar>c - 1 / 1000\<bar> \<le> 1 / 1000 / 2 ^ 53"
  proof -
    have "2 powi (- 1022) \<le> \<bar>1 / 1000 :: real\<bar>" using k(1) by simp
    then have "\<bar>double (1 / 1000) - 1 / 1000\<bar> \<le> \<bar>1 / 1000 :: real\<bar> / 2 ^ 53"
      by (rule double_rel_error)
    then show ?thesis by (simp add: c_def)
  qed
  then have c1: "1 / 2000 \<le> c" unfolding abs_le_iff by simp
  have hc: "1 / 2000 \<le> sz / 2 + c" using c1 szpos by simp
  have se: "\<bar>s - (sz / 2 + c)\<bar> \<le> (sz / 2 + c) / 2 ^ 53"
  proof -
    have "2 powi (- 1022) \<le> \<bar>sz / 2 + c\<bar>" using hc k(1) by linarith
    then have "\<bar>double (sz / 2 + c) - (sz / 2 + c)\<bar> \<le> \<bar>sz / 2 + c\<bar> / 2 ^ 53"
      by (rule double_rel_error)
    then show ?thesis using hc by (simp add: s_def)
  qed
  then have s1: "1 / 4000 \<le> s" using hc unfolding abs_le_iff by simp
  have fe: "\<bar>fround s - s\<bar> \<le> s / 2 ^ 24"
  proof -
    have "2 powi (- 126) \<le> \<bar>s\<bar>" using s1 k(2) by linarith
    then have "\<bar>fround s - s\<bar> \<le> \<bar>s\<bar> / 2 ^ 24"
      by (rule fround_rel_error)
    then show ?thesis using s1 by simp
  qed
  have z: "1 / 1000 \<le> zs" using szpos by (simp add: zs_def)
  have "storedNormal sz = fround s"
    by (simp add: storedNormal_def s_def c_def half_exact [OF assms])
  moreover have "\<bar>fround s - zs\<bar> \<le> zs / 2 ^ 23"
    using ce se fe z unfolding abs_le_iff zs_def by simp
  ultimately show ?thesis by (simp add: zs_def)
qed

subsection \<open>The model at concrete sizes\<close>

lemmas fl_eval = double_def fround_def roundTo_def expo.simps rne_def Let_def

lemma eval_2:
  "storedNormal 2 = 8396997 / 8388608" "storedHalf 2 = 1" "storedOffset 2 2 1 = 0"
  by (simp_all add: storedNormal_def storedHalf_def storedOffset_def gridOffset_def fl_eval)

lemma eval_big:
  "storedNormal (33554433 / 256) = 65536" "storedHalf (33554433 / 256) = 65536"
  "storedOffset 2 (33554433 / 256) 1 = 0"
  by (simp_all add: storedNormal_def storedHalf_def storedOffset_def gridOffset_def fl_eval)

lemma eval_default:
  "storedNormal (double (24 / 10)) = 5037359 / 4194304"
  "storedHalf (double (24 / 10)) = 5033165 / 4194304"
  "storedOffset 3 (double (24 / 10)) 1 = - (13421773 / 33554432)"
  "storedOffset 3 (double (24 / 10)) 2 = 13421773 / 33554432"
  "gridOffset (double (double (24 / 10) / 2)) (double (double (24 / 10) / of_int 3)) 1 =
     - (3602879701896397 / 9007199254740992)"
  "gridOffset (double (double (24 / 10) / 2)) (double (double (24 / 10) / of_int 3)) 2 =
     900719925474099 / 2251799813685248"
  by (simp_all add: storedNormal_def storedHalf_def storedOffset_def gridOffset_def fl_eval)

lemma eval_default_n:
  "storedNormal (double (12 / 5)) = 5037359 / 4194304"
  "storedHalf (double (12 / 5)) = 5033165 / 4194304"
  "storedOffset 3 (double (12 / 5)) 1 = - (13421773 / 33554432)"
  "storedOffset 3 (double (12 / 5)) 2 = 13421773 / 33554432"
  "gridOffset (double (double (12 / 5) / 2)) (double (double (12 / 5) / 3)) 1 =
     - (3602879701896397 / 9007199254740992)"
  "gridOffset (double (double (12 / 5) / 2)) (double (double (12 / 5) / 3)) 2 =
     900719925474099 / 2251799813685248"
  using eval_default by simp_all

lemma default_size_ge_1: "1 \<le> double (24 / 10)"
  unfolding double_24_10 by simp

lemma eval_six:
  "map (storedOffset 6 (double (9 / 10))) [1, 2, 3, 4, 5] =
     [- (5033165 / 16777216), - (5033165 / 33554432), - (1 / 18014398509481984),
      5033165 / 33554432, 5033165 / 16777216]"
  by (simp_all add: storedNormal_def storedHalf_def storedOffset_def gridOffset_def fl_eval)


lemma storedHalf_nonneg: "0 \<le> sz \<Longrightarrow> 0 \<le> storedHalf sz"
  unfolding storedHalf_def fround_def
  by (intro roundTo_nonneg double_nonneg) simp

lemma endpoints_face:
  assumes "k \<in> {2, 3, 4, 5, 6, 7}"
    and "p \<in> set (endpoints (children (buildCubeGrid n sz) ! k))"
  shows "\<exists>i \<in> {1..n - 1}.
           p \<in> {facePoint k (storedNormal sz) (- storedHalf sz) (storedOffset n sz i),
                 facePoint k (storedNormal sz) (storedHalf sz) (storedOffset n sz i),
                 facePoint k (storedNormal sz) (storedOffset n sz i) (- storedHalf sz),
                 facePoint k (storedNormal sz) (storedOffset n sz i) (storedHalf sz)}"
  using assms(2)
  unfolding endpoints_def face_segments [OF assms(1)]
  by (auto simp add: faceSegmentsAt_def)

lemma endpoint_on_face:
  assumes "k \<in> {2, 3, 4, 5, 6, 7}"
    and "1 \<le> n" "n \<le> 2 ^ 53" "double sz = sz" "2 powi (- 100) \<le> sz"
    and "p \<in> set (endpoints (children (buildCubeGrid n sz) ! k))"
  shows "\<exists>a b. p = facePoint k (storedNormal sz) a b \<and>
           \<bar>a\<bar> \<le> storedHalf sz \<and> \<bar>b\<bar> \<le> storedHalf sz"
proof -
  from endpoints_face [OF assms(1,6)] obtain i where i: "1 \<le> i" "i \<le> n - 1"
    and p: "p \<in> {facePoint k (storedNormal sz) (- storedHalf sz) (storedOffset n sz i),
                 facePoint k (storedNormal sz) (storedHalf sz) (storedOffset n sz i),
                 facePoint k (storedNormal sz) (storedOffset n sz i) (- storedHalf sz),
                 facePoint k (storedNormal sz) (storedOffset n sz i) (storedHalf sz)}"
    by auto
  have o: "\<bar>storedOffset n sz i\<bar> \<le> storedHalf sz"
    using i assms(3-5) by (rule storedOffset_bound)
  then have h: "\<bar>storedHalf sz\<bar> \<le> storedHalf sz" "\<bar>- storedHalf sz\<bar> \<le> storedHalf sz"
    by simp_all
  from p o h show ?thesis
    by (elim insertE emptyE) blast+
qed


lemma default_size:
  "double (double (24 / 10)) = double (24 / 10)"
  "2 powi (- 100) \<le> double (24 / 10)"
  "double (24 / 10) \<le> 2 powi 100"
proof -
  show "double (double (24 / 10)) = double (24 / 10)"
    by (rule double_idem)
  show "2 powi (- 100) \<le> double (24 / 10)" "double (24 / 10) \<le> 2 powi 100"
    unfolding double_24_10 by simp_all
qed

lemma endpoints_faceSegmentsAt:
  "concat (map (\<lambda>(p, q). [p, q]) (concat (map (faceSegmentsAt k z h) ts))) =
   concat (map (\<lambda>t. [facePoint k z (- h) t, facePoint k z h t,
                      facePoint k z t (- h), facePoint k z t h]) ts)"
  by (induction ts) (simp_all add: faceSegmentsAt_def)

lemma endpoints_eval:
  assumes "k \<in> {2, 3, 4, 5, 6, 7}"
  shows "endpoints (children (buildCubeGrid n sz) ! k) =
     concat (map (\<lambda>t. [facePoint k (storedNormal sz) (- storedHalf sz) t,
                        facePoint k (storedNormal sz) (storedHalf sz) t,
                        facePoint k (storedNormal sz) t (- storedHalf sz),
                        facePoint k (storedNormal sz) t (storedHalf sz)])
                 (map (storedOffset n sz) [1..n - 1]))"
  unfolding endpoints_def face_segments [OF assms]
  by (rule endpoints_faceSegmentsAt)

subsection \<open>Grid vertices and the offset faces\<close>

text \<open>
  Claim C2 says that every grid vertex has the coordinate \<open>size/2\<close> plus the offset
  \<open>0.001\<close> along the normal of its face and lies neither inside the cube nor farther out
  than the offset.  The buffer holds 32-bit floats.  For \<open>n = 2\<close> and size 2 the stored
  normal coordinate of the +Z face is \<open>8396997 / 8388608\<close>, above \<open>1.001\<close>: the vertex lies
  farther out than the offset.  For \<open>n = 2\<close> and the size \<open>33554433 / 256\<close>, a double, the
  stored normal coordinate and the stored half edge are both 65536, below \<open>size/2\<close>: the
  vertex \<open>(-65536, 0, 65536)\<close> lies strictly inside the cube.
\<close>

theorem grid_vertices_on_faces_counterexample:
  "Vector3 (- 1) 0 (8396997 / 8388608) \<in> set (endpoints (children (buildCubeGrid 2 2) ! 2))
   \<and> (2 / 2 + 1 / 1000 :: real) < 8396997 / 8388608
   \<and> Vector3 (- 65536) 0 65536
        \<in> set (endpoints (children (buildCubeGrid 2 (33554433 / 256)) ! 2))
   \<and> (65536 :: real) < 33554433 / 256 / 2"
  by (simp add: endpoints_eval upto.simps eval_2 eval_big facePoint_def)

text \<open>
  Claim C2, amended.  For every integer \<open>n\<close> with \<open>1 \<le> n \<le> 2\<^sup>5\<^sup>3\<close> and every size that is a
  double between \<open>2\<^sup>-\<^sup>1\<^sup>0\<^sup>0\<close> and \<open>2\<^sup>1\<^sup>0\<^sup>0\<close>, every endpoint of every grid segment of
  \<^verbatim>\<open>buildCubeGrid\<close> has, along the normal of its face, exactly the coordinate
  \<open>storedNormal size\<close> with the sign of the face (children 2 to 7 are the faces +Z, -Z, +X,
  -X, +Y, -Y): the 32-bit float nearest to the double sum of \<open>size/2\<close> and \<open>0.001\<close>.  Along
  the two axes of the face plane its coordinate has absolute value at most
  \<open>storedHalf size\<close>, the 32-bit float nearest to \<open>size/2\<close>.  The stored normal coordinate is
  within the relative error \<open>2\<^sup>-\<^sup>2\<^sup>3\<close> of \<open>size/2 + 0.001\<close> and the stored half edge within
  \<open>2\<^sup>-\<^sup>2\<^sup>4\<close> of \<open>size/2\<close>: a grid vertex lies on the offset face up to rounding, and it can
  be farther out than the offset or inside the cube by that much.
\<close>

theorem grid_vertices_on_faces:
  assumes "1 \<le> n" and "n \<le> 2 ^ 53"
    and "double sz = sz" and "2 powi (- 100) \<le> sz" and "sz \<le> 2 powi 100"
  shows "(\<forall>p \<in> set (endpoints (children (buildCubeGrid n sz) ! 2)).
            vz p = storedNormal sz \<and> \<bar>vx p\<bar> \<le> storedHalf sz \<and> \<bar>vy p\<bar> \<le> storedHalf sz)
       \<and> (\<forall>p \<in> set (endpoints (children (buildCubeGrid n sz) ! 3)).
            vz p = - storedNormal sz \<and> \<bar>vx p\<bar> \<le> storedHalf sz \<and> \<bar>vy p\<bar> \<le> storedHalf sz)
       \<and> (\<forall>p \<in> set (endpoints (children (buildCubeGrid n sz) ! 4)).
            vx p = storedNormal sz \<and> \<bar>vy p\<bar> \<le> storedHalf sz \<and> \<bar>vz p\<bar> \<le> storedHalf sz)
       \<and> (\<forall>p \<in> set (endpoints (children (buildCubeGrid n sz) ! 5)).
            vx p = - storedNormal sz \<and> \<bar>vy p\<bar> \<le> storedHalf sz \<and> \<bar>vz p\<bar> \<le> storedHalf sz)
       \<and> (\<forall>p \<in> set (endpoints (children (buildCubeGrid n sz) ! 6)).
            vy p = storedNormal sz \<and> \<bar>vx p\<bar> \<le> storedHalf sz \<and> \<bar>vz p\<bar> \<le> storedHalf sz)
       \<and> (\<forall>p \<in> set (endpoints (children (buildCubeGrid n sz) ! 7)).
            vy p = - storedNormal sz \<and> \<bar>vx p\<bar> \<le> storedHalf sz \<and> \<bar>vz p\<bar> \<le> storedHalf sz)
       \<and> \<bar>storedNormal sz - (sz / 2 + 1 / 1000)\<bar> \<le> (sz / 2 + 1 / 1000) / 2 ^ 23
       \<and> \<bar>storedHalf sz - sz / 2\<bar> \<le> sz / 2 / 2 ^ 24"
proof -
  note e = endpoint_on_face [OF _ assms(1-4)]
  have "\<bar>storedNormal sz - (sz / 2 + 1 / 1000)\<bar> \<le> (sz / 2 + 1 / 1000) / 2 ^ 23"
    using assms(3,4) by (rule storedNormal_error)
  moreover have "\<bar>storedHalf sz - sz / 2\<bar> \<le> sz / 2 / 2 ^ 24"
    using assms(3,4) by (rule storedHalf_error)
  moreover have "\<forall>p \<in> set (endpoints (children (buildCubeGrid n sz) ! 2)).
            vz p = storedNormal sz \<and> \<bar>vx p\<bar> \<le> storedHalf sz \<and> \<bar>vy p\<bar> \<le> storedHalf sz"
    by (rule ballI, drule e [rotated]) (auto simp add: facePoint_def)
  moreover have "\<forall>p \<in> set (endpoints (children (buildCubeGrid n sz) ! 3)).
            vz p = - storedNormal sz \<and> \<bar>vx p\<bar> \<le> storedHalf sz \<and> \<bar>vy p\<bar> \<le> storedHalf sz"
    by (rule ballI, drule e [rotated]) (auto simp add: facePoint_def)
  moreover have "\<forall>p \<in> set (endpoints (children (buildCubeGrid n sz) ! 4)).
            vx p = storedNormal sz \<and> \<bar>vy p\<bar> \<le> storedHalf sz \<and> \<bar>vz p\<bar> \<le> storedHalf sz"
    by (rule ballI, drule e [rotated]) (auto simp add: facePoint_def)
  moreover have "\<forall>p \<in> set (endpoints (children (buildCubeGrid n sz) ! 5)).
            vx p = - storedNormal sz \<and> \<bar>vy p\<bar> \<le> storedHalf sz \<and> \<bar>vz p\<bar> \<le> storedHalf sz"
    by (rule ballI, drule e [rotated]) (auto simp add: facePoint_def)
  moreover have "\<forall>p \<in> set (endpoints (children (buildCubeGrid n sz) ! 6)).
            vy p = storedNormal sz \<and> \<bar>vx p\<bar> \<le> storedHalf sz \<and> \<bar>vz p\<bar> \<le> storedHalf sz"
    by (rule ballI, drule e [rotated]) (auto simp add: facePoint_def)
  moreover have "\<forall>p \<in> set (endpoints (children (buildCubeGrid n sz) ! 7)).
            vy p = - storedNormal sz \<and> \<bar>vx p\<bar> \<le> storedHalf sz \<and> \<bar>vz p\<bar> \<le> storedHalf sz"
    by (rule ballI, drule e [rotated]) (auto simp add: facePoint_def)
  ultimately show ?thesis by blast
qed

theorem grid_vertices_on_faces_witness:
  "Vector3 (- (5033165 / 4194304)) (- (13421773 / 33554432)) (5037359 / 4194304)
       \<in> set (endpoints (children (buildCubeGrid 3 (double (24 / 10))) ! 2))
   \<and> Vector3 (5033165 / 4194304) (- (13421773 / 33554432)) (- (5037359 / 4194304))
       \<in> set (endpoints (children (buildCubeGrid 3 (double (24 / 10))) ! 3))
   \<and> Vector3 (5037359 / 4194304) (- (13421773 / 33554432)) (5033165 / 4194304)
       \<in> set (endpoints (children (buildCubeGrid 3 (double (24 / 10))) ! 4))
   \<and> Vector3 (- (5037359 / 4194304)) (- (13421773 / 33554432)) (- (5033165 / 4194304))
       \<in> set (endpoints (children (buildCubeGrid 3 (double (24 / 10))) ! 5))
   \<and> Vector3 (- (5033165 / 4194304)) (5037359 / 4194304) (13421773 / 33554432)
       \<in> set (endpoints (children (buildCubeGrid 3 (double (24 / 10))) ! 6))
   \<and> Vector3 (- (5033165 / 4194304)) (- (5037359 / 4194304)) (- (13421773 / 33554432))
       \<in> set (endpoints (children (buildCubeGrid 3 (double (24 / 10))) ! 7))
   \<and> storedNormal (double (24 / 10)) = 5037359 / 4194304
   \<and> storedHalf (double (24 / 10)) = 5033165 / 4194304
   \<and> \<bar>5037359 / 4194304 - (double (24 / 10) / 2 + 1 / 1000)\<bar>
        \<le> (double (24 / 10) / 2 + 1 / 1000) / 2 ^ 23
   \<and> \<bar>5033165 / 4194304 - double (24 / 10) / 2\<bar> \<le> double (24 / 10) / 2 / 2 ^ 24"
proof -
  have n: "(1::int) \<le> 3" "(3::int) \<le> 2 ^ 53"
    by simp_all
  have mem: "Vector3 (- (5033165 / 4194304)) (- (13421773 / 33554432)) (5037359 / 4194304)
       \<in> set (endpoints (children (buildCubeGrid 3 (double (24 / 10))) ! 2))
   \<and> Vector3 (5033165 / 4194304) (- (13421773 / 33554432)) (- (5037359 / 4194304))
       \<in> set (endpoints (children (buildCubeGrid 3 (double (24 / 10))) ! 3))
   \<and> Vector3 (5037359 / 4194304) (- (13421773 / 33554432)) (5033165 / 4194304)
       \<in> set (endpoints (children (buildCubeGrid 3 (double (24 / 10))) ! 4))
   \<and> Vector3 (- (5037359 / 4194304)) (- (13421773 / 33554432)) (- (5033165 / 4194304))
       \<in> set (endpoints (children (buildCubeGrid 3 (double (24 / 10))) ! 5))
   \<and> Vector3 (- (5033165 / 4194304)) (5037359 / 4194304) (13421773 / 33554432)
       \<in> set (endpoints (children (buildCubeGrid 3 (double (24 / 10))) ! 6))
   \<and> Vector3 (- (5033165 / 4194304)) (- (5037359 / 4194304)) (- (13421773 / 33554432))
       \<in> set (endpoints (children (buildCubeGrid 3 (double (24 / 10))) ! 7))"
    by (simp add: endpoints_eval upto.simps eval_default_n facePoint_def)
  from grid_vertices_on_faces [OF n default_size] mem show ?thesis
    by (simp only: eval_default)
qed

lemma gridOffset_symmetric:
  assumes "1 \<le> i" "i \<le> n - 1" "n \<le> 2 ^ 53" "double sz = sz" "2 powi (- 100) \<le> sz"
  shows "\<bar>gridOffset (double (sz / 2)) (double (sz / of_int n)) i
          + gridOffset (double (sz / 2)) (double (sz / of_int n)) (n - i)\<bar> \<le> 5 * sz / 2 ^ 53"
proof -
  have i': "1 \<le> n - i" "n - i \<le> n - 1"
    using assms(1,2) by simp_all
  define E1 where "E1 = - (sz / 2) + of_int i * (sz / of_int n)"
  define E2 where "E2 = - (sz / 2) + of_int (n - i) * (sz / of_int n)"
  define T1 where "T1 = double (- (sz / 2) + double (of_int i * double (sz / of_int n)))"
  define T2 where "T2 = double (- (sz / 2) + double (of_int (n - i) * double (sz / of_int n)))"
  have e1: "\<bar>T1 - E1\<bar> \<le> 5 * sz / 2 ^ 54"
    unfolding T1_def E1_def using assms by (rule offset_analysis(2))
  have e2: "\<bar>T2 - E2\<bar> \<le> 5 * sz / 2 ^ 54"
    unfolding T2_def E2_def using i' assms(3-5) by (rule offset_analysis(2))
  have n0: "(of_int n :: real) \<noteq> 0" using assms(1,2) by auto
  have "E1 + E2 = 0"
    unfolding E1_def E2_def using n0 by (simp add: field_simps)
  then have "\<bar>T1 + T2\<bar> \<le> 2 * (5 * sz / 2 ^ 54)"
    using e1 e2 by linarith
  also have "\<dots> = 5 * sz / 2 ^ 53"
    by simp
  finally have "\<bar>T1 + T2\<bar> \<le> 5 * sz / 2 ^ 53" .
  then show ?thesis
    by (simp add: gridOffset_def half_exact [OF assms(4,5)] T1_def T2_def)
qed

lemma reflect_facePoint:
  "reflect (facePoint k z 0 0) (facePoint k z a b) = facePoint k z (- a) (- b)"
  by (simp add: reflect_def facePoint_def)

lemma reflect_faceSegmentsAt:
  "map (reflectSegment (facePoint k z 0 0)) (faceSegmentsAt k z h t) =
   map prod.swap (faceSegmentsAt k z h (- t))"
  by (simp add: faceSegmentsAt_def reflectSegment_def reflect_facePoint)

subsection \<open>Symmetry of a face grid\<close>

text \<open>
  Claim C10 says that the set of interior offsets is closed under negation.  The offsets
  are computed in doubles.  For the program's own input, \<open>n = 3\<close> and the size literal
  \<^verbatim>\<open>2.4\<close>, they are \<open>-3602879701896397 / 2\<^sup>5\<^sup>3\<close> and \<open>3602879701896396 / 2\<^sup>5\<^sup>3\<close>, which are not
  negatives of each other.  For \<open>n = 6\<close> and the size literal \<^verbatim>\<open>0.9\<close> even the offsets
  stored as 32-bit floats are not closed under negation: the centre line is stored at
  \<open>-1 / 2\<^sup>5\<^sup>4\<close>, not at 0.
\<close>

theorem face_grid_symmetric_counterexample:
  "gridOffsets 3 (double (double (24 / 10) / 2)) (double (double (24 / 10) / of_int 3)) =
     [- (3602879701896397 / 9007199254740992), 900719925474099 / 2251799813685248]
   \<and> uminus ` set (gridOffsets 3 (double (double (24 / 10) / 2))
                      (double (double (24 / 10) / of_int 3)))
       \<noteq> set (gridOffsets 3 (double (double (24 / 10) / 2))
                  (double (double (24 / 10) / of_int 3)))
   \<and> map (storedOffset 6 (double (9 / 10))) [1..6 - 1] =
       [- (5033165 / 16777216), - (5033165 / 33554432), - (1 / 18014398509481984),
        5033165 / 33554432, 5033165 / 16777216]
   \<and> uminus ` set (map (storedOffset 6 (double (9 / 10))) [1..6 - 1])
       \<noteq> set (map (storedOffset 6 (double (9 / 10))) [1..6 - 1])"
proof -
  have a: "gridOffsets 3 (double (double (24 / 10) / 2)) (double (double (24 / 10) / of_int 3)) =
     [- (3602879701896397 / 9007199254740992), 900719925474099 / 2251799813685248]"
    by (simp add: gridOffsets_def upto.simps eval_default_n)
  have b: "map (storedOffset 6 (double (9 / 10))) [1..6 - 1] =
       [- (5033165 / 16777216), - (5033165 / 33554432), - (1 / 18014398509481984),
        5033165 / 33554432, 5033165 / 16777216]"
    using eval_six by (simp add: upto.simps)
  have "(3602879701896397 / 9007199254740992 :: real)
          \<in> uminus ` set [- (3602879701896397 / 9007199254740992),
                           900719925474099 / 2251799813685248]"
    by simp
  moreover have "(3602879701896397 / 9007199254740992 :: real)
          \<notin> set [- (3602879701896397 / 9007199254740992),
                   900719925474099 / 2251799813685248]"
    by simp
  ultimately have c: "uminus ` set [- (3602879701896397 / 9007199254740992 :: real),
                                    900719925474099 / 2251799813685248]
      \<noteq> set [- (3602879701896397 / 9007199254740992),
               900719925474099 / 2251799813685248]"
    by blast
  have "(1 / 18014398509481984 :: real)
          \<in> uminus ` set [- (5033165 / 16777216), - (5033165 / 33554432),
                           - (1 / 18014398509481984), 5033165 / 33554432,
                           5033165 / 16777216]"
    by simp
  moreover have "(1 / 18014398509481984 :: real)
          \<notin> set [- (5033165 / 16777216), - (5033165 / 33554432),
                   - (1 / 18014398509481984), 5033165 / 33554432, 5033165 / 16777216]"
    by simp
  ultimately have d: "uminus ` set [- (5033165 / 16777216 :: real), - (5033165 / 33554432),
                           - (1 / 18014398509481984), 5033165 / 33554432,
                           5033165 / 16777216]
      \<noteq> set [- (5033165 / 16777216), - (5033165 / 33554432),
               - (1 / 18014398509481984), 5033165 / 33554432, 5033165 / 16777216]"
    by blast
  show ?thesis
    unfolding a b using c d by blast
qed

text \<open>
  Claim C10, amended.  For every integer \<open>n\<close> with \<open>1 \<le> n \<le> 2\<^sup>5\<^sup>3\<close> and every size that is a
  double between \<open>2\<^sup>-\<^sup>1\<^sup>0\<^sup>0\<close> and \<open>2\<^sup>1\<^sup>0\<^sup>0\<close>, the stored segments of each face are the horizontal
  and the vertical line at each stored interior offset, in the order of the iterations.
  The offsets are closed under negation up to rounding only: the offsets of the
  iterations \<open>i\<close> and \<open>n - i\<close> add up to at most \<open>5 size / 2\<^sup>5\<^sup>3\<close> in absolute value as the loop
  computes them, and to at most \<open>size / 2\<^sup>2\<^sup>3\<close> as they are stored.  The point reflection
  through the face centre maps the two lines at an offset \<open>t\<close> onto the two lines at
  \<open>-t\<close>, endpoints exchanged; so the grid line set of a face is invariant under that
  reflection up to the same tolerance, and exactly where the offsets happen to be exact
  negatives.
\<close>

theorem face_grid_symmetric:
  assumes "1 \<le> n" and "n \<le> 2 ^ 53"
    and "double sz = sz" and "2 powi (- 100) \<le> sz" and "sz \<le> 2 powi 100"
  shows "(\<forall>k \<in> {2, 3, 4, 5, 6, 7}.
            segments (children (buildCubeGrid n sz) ! k) =
              concat (map (faceSegmentsAt k (storedNormal sz) (storedHalf sz))
                          (map (storedOffset n sz) [1..n - 1])))
       \<and> (\<forall>i \<in> {1..n - 1}.
            \<bar>gridOffset (double (sz / 2)) (double (sz / of_int n)) i
               + gridOffset (double (sz / 2)) (double (sz / of_int n)) (n - i)\<bar>
              \<le> 5 * sz / 2 ^ 53
            \<and> \<bar>storedOffset n sz i + storedOffset n sz (n - i)\<bar> \<le> sz / 2 ^ 23)
       \<and> (\<forall>k t. map (reflectSegment (facePoint k (storedNormal sz) 0 0))
                     (faceSegmentsAt k (storedNormal sz) (storedHalf sz) t) =
                   map prod.swap (faceSegmentsAt k (storedNormal sz) (storedHalf sz) (- t)))"
proof (intro conjI ballI allI)
  fix k :: nat
  assume "k \<in> {2, 3, 4, 5, 6, 7}"
  then show "segments (children (buildCubeGrid n sz) ! k) =
      concat (map (faceSegmentsAt k (storedNormal sz) (storedHalf sz))
                  (map (storedOffset n sz) [1..n - 1]))"
    by (rule face_segments)
next
  fix i
  assume "i \<in> {1..n - 1}"
  then have i: "1 \<le> i" "i \<le> n - 1"
    by simp_all
  show "\<bar>gridOffset (double (sz / 2)) (double (sz / of_int n)) i
          + gridOffset (double (sz / 2)) (double (sz / of_int n)) (n - i)\<bar> \<le> 5 * sz / 2 ^ 53"
    using i assms(2-4) by (rule gridOffset_symmetric)
  show "\<bar>storedOffset n sz i + storedOffset n sz (n - i)\<bar> \<le> sz / 2 ^ 23"
    using i assms(2-4) by (rule storedOffset_symmetric)
next
  fix k t
  show "map (reflectSegment (facePoint k (storedNormal sz) 0 0))
          (faceSegmentsAt k (storedNormal sz) (storedHalf sz) t) =
        map prod.swap (faceSegmentsAt k (storedNormal sz) (storedHalf sz) (- t))"
    by (rule reflect_faceSegmentsAt)
qed

theorem face_grid_symmetric_witness:
  "segments (children (buildCubeGrid 3 (double (24 / 10))) ! 2) =
     [(Vector3 (- (5033165 / 4194304)) (- (13421773 / 33554432)) (5037359 / 4194304),
       Vector3 (5033165 / 4194304) (- (13421773 / 33554432)) (5037359 / 4194304)),
      (Vector3 (- (13421773 / 33554432)) (- (5033165 / 4194304)) (5037359 / 4194304),
       Vector3 (- (13421773 / 33554432)) (5033165 / 4194304) (5037359 / 4194304)),
      (Vector3 (- (5033165 / 4194304)) (13421773 / 33554432) (5037359 / 4194304),
       Vector3 (5033165 / 4194304) (13421773 / 33554432) (5037359 / 4194304)),
      (Vector3 (13421773 / 33554432) (- (5033165 / 4194304)) (5037359 / 4194304),
       Vector3 (13421773 / 33554432) (5033165 / 4194304) (5037359 / 4194304))]
   \<and> \<bar>- (3602879701896397 / 9007199254740992) + 900719925474099 / 2251799813685248\<bar>
        \<le> 5 * double (24 / 10) / 2 ^ 53
   \<and> \<bar>- (13421773 / 33554432) + 13421773 / 33554432\<bar> \<le> double (24 / 10) / 2 ^ 23"
proof -
  have n: "(1::int) \<le> 3" "(3::int) \<le> 2 ^ 53"
    by simp_all
  note t = face_grid_symmetric [OF n default_size]
  have k: "(2::nat) \<in> {2, 3, 4, 5, 6, 7}" and i: "(1::int) \<in> {1..3 - 1}"
    by simp_all
  from t [THEN conjunct1, THEN bspec, OF k]
    t [THEN conjunct2, THEN conjunct1, THEN bspec, OF i] default_size_ge_1
  show ?thesis
    by (simp add: upto.simps eval_default_n faceSegmentsAt_def facePoint_def)
qed

section \<open>Properties of the viewer session\<close>

subsection \<open>Setup\<close>

text \<open>
  With a null mount reference \<^verbatim>\<open>init\<close> raises at its first statement and changes nothing.
  With an element attached it runs to the end, and the session is running.
\<close>

lemma init_null: "mountRef_current s = None \<Longrightarrow> init s = (Some TypeError, s)"
  by (simp add: init_def)

lemma importsResolved_live:
  assumes "initPending s" and "mountRef_current s = Some m"
  shows "running (importsResolved s) \<and> surfaceAttached (importsResolved s)"
  using assms
  by (simp add: importsResolved_def init_def animate_def Let_def running_def
      surfaceAttached_def)

lemma runningSession_eq:
  "runningSession =
     \<lparr>mountRef_current = Some \<lparr>clientWidth = 800, childNodes = [RendererDomElement]\<rparr>,
      innerHeight = 1000, devicePixelRatio = 1, resizeListener = True,
      pendingFrame = Some 1, nextFrameId = 2,
      calls = [RendererSetPixelRatio 1, RendererSetSize 800 450, AppendChild,
               SceneAdd (AmbientLight 0xffffff (8 / 10)),
               SceneAdd (DirectionalLight 0xffffff (6 / 10) (Vector3 5 10 7)),
               SceneAdd (CubeGroup (buildCubeGrid 3 (double (24 / 10)))),
               SceneAdd (GroundPlane 20 20 planeMat (- (1 / 2)) (- (16 / 10))),
               AddEventListener, ControlsUpdate, RendererRender,
               RequestAnimationFrame 1],
      initPending = False,
      renderer = Some \<lparr>antialias = True, pixelRatio = 1, rendererWidth = 800,
                        rendererHeight = 450, rendererDisposed = 0\<rparr>,
      scene = Some \<lparr>background = 0xf7f7fb,
                     objects = [AmbientLight 0xffffff (8 / 10),
                                DirectionalLight 0xffffff (6 / 10) (Vector3 5 10 7),
                                CubeGroup (buildCubeGrid 3 (double (24 / 10))),
                                GroundPlane 20 20 planeMat (- (1 / 2)) (- (16 / 10))]\<rparr>,
      camera = Some \<lparr>fov = 45, aspect = 16 / 9, near = 1 / 10, far = 1000,
                      position = Vector3 4 4 6, projectionAspect = 16 / 9\<rparr>,
      controls = Some \<lparr>enableDamping = True, dampingFactor = 8 / 100, minDistance = 3,
                        maxDistance = 20, controlsDisposed = 0\<rparr>,
      animId = Some 1,
      cubeGroup = Some (buildCubeGrid 3 (double (24 / 10))),
      cleanupPromise = True\<rparr>"
  by (simp add: runningSession_def run_def pendingSession_def useEffect_def exampleMount_def
      importsResolved_def init_def animate_def Let_def)

lemma runningSession_running: "running runningSession"
  by (simp add: runningSession_eq running_def)

subsection \<open>The three outcomes of the teardown\<close>

text \<open>
  Once the cleanup is stored and the controls and the renderer exist, the teardown runs its
  first four statements whatever the state; the fifth removes the surface when it is a
  child of the mounted element, raises \<^verbatim>\<open>NotFoundError\<close> when it is not, and raises
  \<^verbatim>\<open>TypeError\<close> when the mount reference is null.
\<close>

lemma teardown_attached:
  assumes "cleanupPromise s" and "controls s = Some c" and "renderer s = Some r"
    and "mountRef_current s = Some m" and "RendererDomElement \<in> set (childNodes m)"
  shows "teardown s =
     (None,
      s\<lparr>resizeListener := False,
        pendingFrame := (if pendingFrame s = animId s then None else pendingFrame s),
        controls := Some (c\<lparr>controlsDisposed := controlsDisposed c + 1\<rparr>),
        renderer := Some (r\<lparr>rendererDisposed := rendererDisposed r + 1\<rparr>),
        mountRef_current :=
          Some (m\<lparr>childNodes := remove1 RendererDomElement (childNodes m)\<rparr>),
        calls := calls s @ [RemoveEventListener, CancelAnimationFrame (animId s),
                            ControlsDispose, RendererDispose, RemoveChild]\<rparr>)"
  using assms by (simp add: teardown_def cleanup_def Let_def)

lemma teardown_detached:
  assumes "cleanupPromise s" and "controls s = Some c" and "renderer s = Some r"
    and "mountRef_current s = Some m" and "RendererDomElement \<notin> set (childNodes m)"
  shows "teardown s =
     (Some NotFoundError,
      s\<lparr>resizeListener := False,
        pendingFrame := (if pendingFrame s = animId s then None else pendingFrame s),
        controls := Some (c\<lparr>controlsDisposed := controlsDisposed c + 1\<rparr>),
        renderer := Some (r\<lparr>rendererDisposed := rendererDisposed r + 1\<rparr>),
        calls := calls s @ [RemoveEventListener, CancelAnimationFrame (animId s),
                            ControlsDispose, RendererDispose, RemoveChild]\<rparr>)"
  using assms by (simp add: teardown_def cleanup_def Let_def)

lemma teardown_null:
  assumes "cleanupPromise s" and "controls s = Some c" and "renderer s = Some r"
    and "mountRef_current s = None"
  shows "teardown s =
     (Some TypeError,
      s\<lparr>resizeListener := False,
        pendingFrame := (if pendingFrame s = animId s then None else pendingFrame s),
        controls := Some (c\<lparr>controlsDisposed := controlsDisposed c + 1\<rparr>),
        renderer := Some (r\<lparr>rendererDisposed := rendererDisposed r + 1\<rparr>),
        calls := calls s @ [RemoveEventListener, CancelAnimationFrame (animId s),
                            ControlsDispose, RendererDispose]\<rparr>)"
  using assms by (simp add: teardown_def cleanup_def Let_def)

lemma running_objects:
  assumes "running s"
  obtains c r where "cleanupPromise s" "controls s = Some c" "renderer s = Some r"
    "pendingFrame s = animId s"
  using assms by (auto simp add: running_def)

subsection \<open>Invariants of the event loop\<close>

text \<open>
  Every event but the teardown keeps a running session running.  A session in which nothing
  has been set up and whose mount reference is null stays so, and makes no call but reports
  to the console, as long as the host attaches no element to the reference.
\<close>

lemma running_step:
  assumes "running s" and "e \<noteq> Teardown"
  shows "running (handleEvent e s)"
proof (cases e)
  case WindowResize
  then show ?thesis
    using assms(1)
    by (auto simp add: resizeEvent_def onResize_def running_def Let_def
        split: option.splits)
next
  case AnimationFrame
  then show ?thesis
    using assms(1)
    by (auto simp add: animationFrame_def animate_def running_def Let_def
        split: option.splits)
qed (use assms in \<open>simp_all add: running_def importsResolved_def importsRejected_def\<close>)

lemma idle_null_step:
  assumes "idle s" and "mountRef_current s = None" and "\<not> attaches e"
  shows "idle (handleEvent e s) \<and> mountRef_current (handleEvent e s) = None \<and>
         libraryCalls (handleEvent e s) = libraryCalls s"
proof (cases e)
  case ImportsResolved
  then show ?thesis
    using assms by (simp add: importsResolved_def init_null idle_def libraryCalls_def)
next
  case ImportsRejected
  then show ?thesis
    using assms by (simp add: importsRejected_def idle_def libraryCalls_def)
next
  case Teardown
  then show ?thesis
    using assms by (simp add: teardown_def idle_def)
next
  case WindowResize
  then show ?thesis
    using assms by (simp add: resizeEvent_def idle_def)
next
  case AnimationFrame
  then show ?thesis
    using assms by (simp add: animationFrame_def idle_def)
next
  case (HostSetsRef x)
  then show ?thesis
    using assms by (cases x) (simp_all add: idle_def libraryCalls_def)
next
  case (HostSetsInnerHeight x)
  then show ?thesis
    using assms by (simp add: idle_def libraryCalls_def)
qed

lemma idle_null_run:
  assumes "idle s" and "mountRef_current s = None" and "\<forall>e \<in> set evs. \<not> attaches e"
  shows "idle (run evs s) \<and> libraryCalls (run evs s) = libraryCalls s"
  using assms
proof (induction evs arbitrary: s)
  case Nil
  then show ?case by (simp add: run_def)
next
  case (Cons e evs)
  from Cons.prems have e: "\<not> attaches e" and evs: "\<forall>e \<in> set evs. \<not> attaches e"
    by simp_all
  note st = idle_null_step [OF Cons.prems(1,2) e]
  from Cons.IH [OF st [THEN conjunct1] st [THEN conjunct2, THEN conjunct1] evs] st
  show ?case by (simp add: run_def)
qed

subsection \<open>The order of the teardown\<close>




subsection \<open>Teardown twice\<close>

text \<open>
  Claim C4 says that invoking the teardown twice in succession on a session that reached
  Running raises no error and releases no resource twice.  The cleanup keeps no record of
  having run: on the concrete running session the second invocation raises
  \<^verbatim>\<open>NotFoundError\<close> at \<^verbatim>\<open>removeChild\<close>, and the controls and the renderer have then been
  released twice.
\<close>

theorem teardown_twice_counterexample:
  "running runningSession
   \<and> fst (teardown runningSession) = None
   \<and> fst (teardown (snd (teardown runningSession))) = Some NotFoundError
   \<and> controlsReleases (snd (teardown (snd (teardown runningSession)))) = Some 2
   \<and> rendererReleases (snd (teardown (snd (teardown runningSession)))) = Some 2"
  by (simp add: runningSession_running)
     (simp add: runningSession_eq teardown_def cleanup_def Let_def controlsReleases_def
      rendererReleases_def)

text \<open>
  Claim C4, amended.  For a session that reached Running and whose rendering surface is
  still a child of the mount region, the first teardown raises no error, leaves no resize
  listener registered, stops the loop, detaches the surface, and releases the controls and
  the renderer once each.  The teardown is not idempotent: a second invocation in
  succession still leaves no resize listener registered, but it releases the controls and
  the renderer a second time and raises \<^verbatim>\<open>NotFoundError\<close> at the detach step.
\<close>

theorem teardown_twice:
  assumes "running s" and "mountRef_current s = Some m"
    and "RendererDomElement \<in> set (childNodes m)" and "distinct (childNodes m)"
  shows "fst (teardown s) = None
       \<and> \<not> resizeListener (snd (teardown s))
       \<and> pendingFrame (snd (teardown s)) = None
       \<and> \<not> surfaceAttached (snd (teardown s))
       \<and> controlsReleases (snd (teardown s)) = map_option Suc (controlsReleases s)
       \<and> rendererReleases (snd (teardown s)) = map_option Suc (rendererReleases s)
       \<and> fst (teardown (snd (teardown s))) = Some NotFoundError
       \<and> \<not> resizeListener (snd (teardown (snd (teardown s))))
       \<and> controlsReleases (snd (teardown (snd (teardown s)))) =
           map_option (Suc \<circ> Suc) (controlsReleases s)
       \<and> rendererReleases (snd (teardown (snd (teardown s)))) =
           map_option (Suc \<circ> Suc) (rendererReleases s)"
proof -
  from assms(1) obtain c r where o: "cleanupPromise s" "controls s = Some c"
    "renderer s = Some r" "pendingFrame s = animId s"
    by (rule running_objects)
  define s1 where "s1 = snd (teardown s)"
  have t1: "teardown s = (None, s1)"
    and s1: "cleanupPromise s1" "\<not> resizeListener s1" "pendingFrame s1 = None"
      "controls s1 = Some (c\<lparr>controlsDisposed := controlsDisposed c + 1\<rparr>)"
      "renderer s1 = Some (r\<lparr>rendererDisposed := rendererDisposed r + 1\<rparr>)"
      "mountRef_current s1 =
         Some (m\<lparr>childNodes := remove1 RendererDomElement (childNodes m)\<rparr>)"
    unfolding s1_def using o
    by (simp_all add: teardown_attached [OF o(1-3) assms(2,3)])
  have gone: "RendererDomElement \<notin> set (childNodes (m\<lparr>childNodes := remove1 RendererDomElement (childNodes m)\<rparr>))"
    using assms(4) by simp
  note t2 = teardown_detached [OF s1(1) s1(4) s1(5) s1(6) gone]
  show ?thesis
    unfolding s1_def [symmetric]
    using s1 gone o
    by (simp add: t1 t2 controlsReleases_def rendererReleases_def surfaceAttached_def)
qed

theorem teardown_twice_witness:
  "running runningSession
   \<and> mountRef_current runningSession =
       Some \<lparr>clientWidth = 800, childNodes = [RendererDomElement]\<rparr>
   \<and> fst (teardown runningSession) = None
   \<and> controlsReleases runningSession = Some 0
   \<and> controlsReleases (snd (teardown runningSession)) = Some 1
   \<and> fst (teardown (snd (teardown runningSession))) = Some NotFoundError
   \<and> \<not> resizeListener (snd (teardown (snd (teardown runningSession))))"
proof -
  have r: "running runningSession"
    by (rule runningSession_running)
  have m: "mountRef_current runningSession =
       Some \<lparr>clientWidth = 800, childNodes = [RendererDomElement]\<rparr>"
    by (simp add: runningSession_eq)
  have c: "controlsReleases runningSession = Some 0"
    by (simp add: runningSession_eq controlsReleases_def)
  from teardown_twice [OF r m] r m c show ?thesis
    by simp
qed

subsection \<open>Teardown without the mount region\<close>

text \<open>
  Claim C5 says that the detach step is a no-op when the mount region is gone.  On the
  concrete running session, after the host has cleared the mount reference, the teardown
  raises \<^verbatim>\<open>TypeError\<close>.
\<close>

theorem teardown_unmounted_counterexample:
  "running (run [ImportsResolved, HostSetsRef None] pendingSession)
   \<and> mountRef_current (run [ImportsResolved, HostSetsRef None] pendingSession) = None
   \<and> fst (teardown (run [ImportsResolved, HostSetsRef None] pendingSession)) = Some TypeError"
proof -
  have "run [ImportsResolved, HostSetsRef None] pendingSession =
          runningSession\<lparr>mountRef_current := None\<rparr>"
    by (simp add: runningSession_def run_def)
  then show ?thesis
    by (simp add: runningSession_eq running_def teardown_def cleanup_def Let_def)
qed

text \<open>
  Claim C5, amended.  If the teardown of a running session is requested when the rendering
  surface is not a child of a mounted element, the first four steps run (the resize handler
  is deregistered, the loop is stopped, the controls and the renderer are released once
  each) and the detach step raises: \<^verbatim>\<open>TypeError\<close> when the host has cleared the mount
  reference, \<^verbatim>\<open>NotFoundError\<close> when the reference holds an element that no longer has the
  surface as a child.  The mount reference is left as it was.
\<close>

theorem teardown_unmounted:
  assumes "running s" and "\<not> surfaceAttached s"
  shows "fst (teardown s) =
           Some (if mountRef_current s = None then TypeError else NotFoundError)
       \<and> \<not> resizeListener (snd (teardown s))
       \<and> pendingFrame (snd (teardown s)) = None
       \<and> controlsReleases (snd (teardown s)) = map_option Suc (controlsReleases s)
       \<and> rendererReleases (snd (teardown s)) = map_option Suc (rendererReleases s)
       \<and> mountRef_current (snd (teardown s)) = mountRef_current s"
proof -
  from assms(1) obtain c r where o: "cleanupPromise s" "controls s = Some c"
    "renderer s = Some r" "pendingFrame s = animId s"
    by (rule running_objects)
  show ?thesis
  proof (cases "mountRef_current s")
    case None
    then show ?thesis
      using o by (simp add: teardown_null [OF o(1-3)] controlsReleases_def
          rendererReleases_def)
  next
    case (Some m)
    with assms(2) have "RendererDomElement \<notin> set (childNodes m)"
      by (simp add: surfaceAttached_def)
    then show ?thesis
      using o Some by (simp add: teardown_detached [OF o(1-3) Some] controlsReleases_def
          rendererReleases_def)
  qed
qed

theorem teardown_unmounted_witness:
  "running (runningSession\<lparr>mountRef_current := None\<rparr>)
   \<and> \<not> surfaceAttached (runningSession\<lparr>mountRef_current := None\<rparr>)
   \<and> fst (teardown (runningSession\<lparr>mountRef_current := None\<rparr>)) = Some TypeError
   \<and> \<not> resizeListener (snd (teardown (runningSession\<lparr>mountRef_current := None\<rparr>)))
   \<and> rendererReleases (snd (teardown (runningSession\<lparr>mountRef_current := None\<rparr>))) = Some 1"
proof -
  have r: "running (runningSession\<lparr>mountRef_current := None\<rparr>)"
    by (simp add: runningSession_eq running_def)
  have a: "\<not> surfaceAttached (runningSession\<lparr>mountRef_current := None\<rparr>)"
    by (simp add: surfaceAttached_def)
  have c: "rendererReleases (runningSession\<lparr>mountRef_current := None\<rparr>) = Some 0"
    by (simp add: runningSession_eq rendererReleases_def)
  from teardown_unmounted [OF r a] r a c show ?thesis
    by simp
qed

subsection \<open>Resize\<close>

text \<open>
  Claim C6.  After a resize event in the Running state, with \<open>w\<close> the current client width
  of the mount region and \<open>h = max(400, 0.45 \<times> viewport height)\<close>, the aspect ratio of the
  camera is exactly \<open>w / h\<close>, the rendering surface has size \<open>(w, h)\<close>, the projection has been
  recomputed from that aspect, no error is raised and the session is still running.
\<close>

theorem resize_sets_aspect:
  assumes "running s" and "mountRef_current s = Some m"
  shows "fst (resizeEvent s) = None
       \<and> map_option aspect (camera (snd (resizeEvent s))) =
           Some (clientWidth m / max 400 (innerHeight s * (45 / 100)))
       \<and> map_option (\<lambda>r. (rendererWidth r, rendererHeight r)) (renderer (snd (resizeEvent s))) =
           Some (clientWidth m, max 400 (innerHeight s * (45 / 100)))
       \<and> map_option projectionAspect (camera (snd (resizeEvent s))) =
           Some (clientWidth m / max 400 (innerHeight s * (45 / 100)))
       \<and> running (snd (resizeEvent s))"
  using assms
  by (auto simp add: resizeEvent_def onResize_def running_def Let_def)

theorem resize_sets_aspect_witness:
  "running (run [HostSetsInnerHeight 2000,
                 HostSetsRef (Some \<lparr>clientWidth = 1200, childNodes = [RendererDomElement]\<rparr>)]
              runningSession)
   \<and> map_option aspect (camera (snd (resizeEvent
        (run [HostSetsInnerHeight 2000,
              HostSetsRef (Some \<lparr>clientWidth = 1200, childNodes = [RendererDomElement]\<rparr>)]
           runningSession)))) = Some (4 / 3)
   \<and> map_option (\<lambda>r. (rendererWidth r, rendererHeight r)) (renderer (snd (resizeEvent
        (run [HostSetsInnerHeight 2000,
              HostSetsRef (Some \<lparr>clientWidth = 1200, childNodes = [RendererDomElement]\<rparr>)]
           runningSession)))) = Some (1200, 900)"
proof -
  define s where "s = run [HostSetsInnerHeight 2000,
      HostSetsRef (Some \<lparr>clientWidth = 1200, childNodes = [RendererDomElement]\<rparr>)]
    runningSession"
  have r: "running s"
    by (simp add: s_def run_def runningSession_eq running_def)
  have m: "mountRef_current s =
      Some \<lparr>clientWidth = 1200, childNodes = [RendererDomElement]\<rparr>"
    by (simp add: s_def run_def)
  have h: "innerHeight s = 2000"
    by (simp add: s_def run_def)
  from resize_sets_aspect [OF r m] r show ?thesis
    unfolding s_def [symmetric] by (simp add: h)
qed

subsection \<open>Teardown before the imports have resolved\<close>

text \<open>
  Claim C3 says that a teardown requested while the imports are pending keeps the session
  from ever reaching Running.  The teardown then does nothing at all, and nothing marks the
  session as disposed: on the concrete session, whose mount region is still attached, the
  imports resolve afterwards and \<^verbatim>\<open>init\<close> runs in full: the cube is built, the resize
  listener is registered and a frame is rendered.
\<close>

theorem teardown_while_pending_counterexample:
  "initPending pendingSession
   \<and> teardown pendingSession = (None, pendingSession)
   \<and> running (run [Teardown, ImportsResolved] pendingSession)
   \<and> resizeListener (run [Teardown, ImportsResolved] pendingSession)
   \<and> cubeGroup (run [Teardown, ImportsResolved] pendingSession) =
       Some (buildCubeGrid 3 (double (24 / 10)))
   \<and> RendererRender \<in> set (calls (run [Teardown, ImportsResolved] pendingSession))"
proof -
  have t: "teardown pendingSession = (None, pendingSession)"
    by (simp add: teardown_def pendingSession_def useEffect_def)
  then have "run [Teardown, ImportsResolved] pendingSession = runningSession"
    by (simp add: run_def runningSession_def)
  with t show ?thesis
    by (simp add: runningSession_running)
       (simp add: runningSession_eq pendingSession_def useEffect_def)
qed

text \<open>
  Claim C3, amended.  If the teardown is requested while the imports are still pending, the
  teardown itself does nothing.  The session never reaches Running afterwards provided
  the mount reference is null by then and the host attaches no element to it again: the
  resumed \<^verbatim>\<open>init\<close> raises at its first statement, so whatever events follow, no geometry is
  built or inserted, no resize listener is registered, no frame runs, and no call is made
  except the report of the error to the console.  If the mount reference still holds an
  element when the imports resolve, the pending setup is not suppressed: it runs in full
  and the session is running.
\<close>

theorem teardown_while_pending:
  assumes "initPending s" and "idle s"
  shows "teardown s = (None, s)
       \<and> (mountRef_current s = None \<and> (\<forall>e \<in> set evs. \<not> attaches e) \<longrightarrow>
            idle (run (Teardown # evs) s) \<and>
            libraryCalls (run (Teardown # evs) s) = libraryCalls s)
       \<and> (mountRef_current s \<noteq> None \<longrightarrow> running (run [Teardown, ImportsResolved] s))"
proof (intro conjI impI)
  show t: "teardown s = (None, s)"
    using assms(2) by (simp add: teardown_def idle_def)
  then have r: "run (Teardown # es) s = run es s" for es
    by (simp add: run_def)
  {
    assume "mountRef_current s = None \<and> (\<forall>e \<in> set evs. \<not> attaches e)"
    then have "idle (run evs s) \<and> libraryCalls (run evs s) = libraryCalls s"
      using idle_null_run [OF assms(2)] by blast
    then show "idle (run (Teardown # evs) s)"
      and "libraryCalls (run (Teardown # evs) s) = libraryCalls s"
      by (simp_all add: r)
  }
  assume "mountRef_current s \<noteq> None"
  then obtain m where "mountRef_current s = Some m"
    by auto
  with assms(1) have "running (importsResolved s)"
    by (simp add: importsResolved_live)
  then show "running (run [Teardown, ImportsResolved] s)"
    by (simp add: r) (simp add: run_def)
qed

theorem teardown_while_pending_witness:
  "teardown (useEffect None 1000 1) = (None, useEffect None 1000 1)
   \<and> idle (run [Teardown, ImportsResolved, WindowResize, AnimationFrame]
              (useEffect None 1000 1))
   \<and> libraryCalls (run [Teardown, ImportsResolved, WindowResize, AnimationFrame]
                     (useEffect None 1000 1)) = []
   \<and> calls (run [Teardown, ImportsResolved, WindowResize, AnimationFrame]
              (useEffect None 1000 1)) = [ConsoleError TypeError]
   \<and> running (run [Teardown, ImportsResolved] pendingSession)"
proof -
  have p: "initPending (useEffect None 1000 1)"
    and i: "idle (useEffect None 1000 1)"
    and m: "mountRef_current (useEffect None 1000 1) = None"
    and l: "libraryCalls (useEffect None 1000 1) = []"
    by (simp_all add: useEffect_def idle_def libraryCalls_def)
  have e: "\<forall>e \<in> set [ImportsResolved, WindowResize, AnimationFrame]. \<not> attaches e"
    by simp
  have c: "calls (run [Teardown, ImportsResolved, WindowResize, AnimationFrame]
              (useEffect None 1000 1)) = [ConsoleError TypeError]"
    by (simp add: run_def useEffect_def teardown_def importsResolved_def init_def
        resizeEvent_def animationFrame_def)
  have p': "initPending pendingSession" and i': "idle pendingSession"
    and m': "mountRef_current pendingSession \<noteq> None"
    by (simp_all add: pendingSession_def useEffect_def idle_def)
  from teardown_while_pending [OF p i, of "[ImportsResolved, WindowResize, AnimationFrame]"]
    teardown_while_pending [OF p' i', of "[]"] m e l c m'
  show ?thesis
    by simp
qed

end
